(* ===== verification/Prelude.thy ===== *)
theory Prelude
  imports Main "HOL-Library.Word"
begin

text \<open>
  Shared vocabulary of the pyvlx frame-codec development: the types that stand for
  Python's \<open>bytes\<close> and \<open>str\<close>, the exceptions the modelled code raises, the
  error-propagating composition of fallible steps, and the generic lemmas on bytes,
  lists and results that the component theories use.
\<close>

section \<open>Collections\<close>

named_theorems codec_defs
  "definitions of the modelled operations, unfolded when a concrete frame is evaluated"

section \<open>Python values\<close>

text \<open>
  A Python \<open>bytes\<close> object is a sequence of 8-bit values, here a list of
  \<open>8 word\<close>. A Python \<open>str\<close> is a sequence of Unicode code points; it is a list
  of natural numbers, each below \<open>0x110000\<close> (\<open>is_pystr\<close>). Python's \<open>len\<close>
  on a \<open>str\<close> counts code points, which is \<open>length\<close> of that list.
\<close>

type_synonym byte = "8 word"
type_synonym pystr = "nat list"

definition is_pystr :: "pystr \<Rightarrow> bool" where
  "is_pystr s \<longleftrightarrow> list_all (\<lambda>c. c < 0x110000) s"

text \<open>The ASCII literals of the source, read as Python strings.\<close>

definition ascii :: "string \<Rightarrow> pystr" where
  "ascii s = map of_char s"

section \<open>Exceptions as values\<close>

text \<open>
  Every \<^verbatim>\<open>raise\<close> of the modelled code, and every built-in exception a line of it can
  raise (\<^verbatim>\<open>payload[0]\<close> on empty bytes, an enum built from an unknown value, slicing
  \<^verbatim>\<open>None\<close>, a failed UTF-8 encode or decode), is a constructor of \<open>py_error\<close>.
  \<open>PayloadTooLong\<close>, \<open>UnknownCommand\<close> and \<open>DuplicateCommand\<close> are the errors the
  specification names for the helpers that are not part of the source file.
\<close>

datatype py_error =
    PyVLXException string
  | IndexError
  | ValueError
  | TypeError
  | UnicodeEncodeError
  | UnicodeDecodeError
  | PayloadTooLong
  | UnknownCommand
  | DuplicateCommand

type_synonym 'a result = "py_error + 'a"

text \<open>A statement that may raise, followed by the rest of the method body.\<close>

definition rbind :: "'a result \<Rightarrow> ('a \<Rightarrow> 'b result) \<Rightarrow> 'b result" where
  "rbind x f = (case x of Inl e \<Rightarrow> Inl e | Inr v \<Rightarrow> f v)"

lemma rbind_Inl [simp]: "rbind (Inl e) f = Inl e"
  by (simp add: rbind_def)

lemma rbind_Inr [simp]: "rbind (Inr v) f = f v"
  by (simp add: rbind_def)

lemma rbind_eq_Inr_iff: "rbind x f = Inr w \<longleftrightarrow> (\<exists>v. x = Inr v \<and> f v = Inr w)"
  by (cases x) simp_all

lemma rbind_eq_Inl_iff:
  "rbind x f = Inl e \<longleftrightarrow> x = Inl e \<or> (\<exists>v. x = Inr v \<and> f v = Inl e)"
  by (cases x) simp_all

text \<open>Python's \<^verbatim>\<open>bytes([v, ...])\<close>: every value must lie in \<open>range(0, 256)\<close>.\<close>

definition py_bytes :: "int list \<Rightarrow> byte list result" where
  "py_bytes vs =
     (if list_all (\<lambda>v. 0 \<le> v \<and> v < 256) vs then Inr (map word_of_int vs) else Inl ValueError)"

declare py_bytes_def [codec_defs]

section \<open>Bytes and natural numbers\<close>

lemma unat_of_nat_byte [simp]: "n < 256 \<Longrightarrow> unat (word_of_nat n :: byte) = n"
  by (simp add: unat_of_nat)

lemma unat_byte_less [simp]: "unat (b :: byte) < 256"
  using unsigned_less [of b] by simp

lemma map_unat_of_nat_bytes:
  "list_all (\<lambda>n. n < 256) ns \<Longrightarrow> map unat (map word_of_nat ns :: byte list) = ns"
  by (induction ns) simp_all

lemma word_of_nat_comp_unat [simp]: "(word_of_nat \<circ> unat) = (id :: byte \<Rightarrow> byte)"
  by (rule ext) simp

lemma byte_eq_0_iff_unat: "(b :: byte) = 0 \<longleftrightarrow> unat b = 0"
  by (simp add: unat_eq_zero)

lemma py_bytes_length: "py_bytes vs = Inr bs \<Longrightarrow> length bs = length vs"
  by (auto simp: py_bytes_def split: if_splits)

section \<open>Lists\<close>

lemma takeWhile_append_stop:
  "\<not> P x \<Longrightarrow> list_all P xs \<Longrightarrow> takeWhile P (xs @ x # ys) = xs"
  by (induction xs) simp_all

lemma takeWhile_replicate_stop:
  "\<not> P x \<Longrightarrow> 0 < n \<Longrightarrow> takeWhile P (xs @ replicate n x) = takeWhile P xs"
  by (induction xs) (simp_all add: takeWhile_append gr0_conv_Suc)

section \<open>Maps\<close>

lemma map_of_rev_distinct: "distinct (map fst es) \<Longrightarrow> map_of (rev es) = map_of es"
  by (rule map_of_inject_set [THEN iffD2]) (simp_all add: rev_map [symmetric])

end
