(* ===== verification/Utf8.thy ===== *)
theory Utf8
  imports Prelude
begin

text \<open>
  The text codec that the string helpers of pyvlx use: CPython's strict UTF-8 codec,
  \<^verbatim>\<open>str.encode('utf-8')\<close> and \<^verbatim>\<open>bytes.decode('utf-8')\<close>. The encoder maps each code
  point to one to four bytes and raises \<open>UnicodeEncodeError\<close> on a surrogate
  (\<open>0xD800\<close> to \<open>0xDFFF\<close>). The decoder accepts exactly the well-formed byte sequences
  of the Unicode standard (Table 3-7: no overlong forms, no surrogates, nothing above
  \<open>0x10FFFF\<close>, no truncated sequence) and raises \<open>UnicodeDecodeError\<close> on anything else.
  The theory proves that the two are inverse bijections between strings of Unicode
  scalar values and well-formed byte strings, and the facts about zero bytes and
  lengths that the fixed-size string fields of the frames rely on.
\<close>

section \<open>Encoder\<close>

definition is_scalar :: "nat \<Rightarrow> bool" where
  "is_scalar c \<longleftrightarrow> c < 0x110000 \<and> \<not> (0xD800 \<le> c \<and> c < 0xE000)"

definition utf8_encode_char :: "nat \<Rightarrow> nat list option" where
  "utf8_encode_char c =
     (if c < 0x80 then Some [c]
      else if c < 0x800 then Some [0xC0 + c div 0x40, 0x80 + c mod 0x40]
      else if c < 0x10000 then
        (if 0xD800 \<le> c \<and> c < 0xE000 then None
         else Some [0xE0 + c div 0x1000, 0x80 + c div 0x40 mod 0x40, 0x80 + c mod 0x40])
      else if c < 0x110000 then
        Some [0xF0 + c div 0x40000, 0x80 + c div 0x1000 mod 0x40,
              0x80 + c div 0x40 mod 0x40, 0x80 + c mod 0x40]
      else None)"

text \<open>\<^verbatim>\<open>s.encode('utf-8')\<close>: the encoded characters, concatenated.\<close>

fun utf8_encode :: "pystr \<Rightarrow> byte list result" where
  "utf8_encode [] = Inr []"
| "utf8_encode (c # cs) =
     (case utf8_encode_char c of
        None \<Rightarrow> Inl UnicodeEncodeError
      | Some ns \<Rightarrow> rbind (utf8_encode cs) (\<lambda>bs. Inr (map word_of_nat ns @ bs)))"

section \<open>Decoder\<close>

text \<open>One decoding step: the lead byte, the bytes after it, the code point and the rest.\<close>

definition in_range :: "nat \<Rightarrow> nat \<Rightarrow> nat \<Rightarrow> bool" where
  "in_range lo hi b \<longleftrightarrow> lo \<le> b \<and> b \<le> hi"

definition utf8_step :: "nat \<Rightarrow> nat list \<Rightarrow> (nat \<times> nat list) option" where
  "utf8_step b1 bs =
     (if b1 \<le> 0x7F then Some (b1, bs)
      else if in_range 0xC2 0xDF b1 then
        (case bs of
           b2 # r \<Rightarrow>
             if in_range 0x80 0xBF b2 then Some ((b1 - 0xC0) * 0x40 + (b2 - 0x80), r) else None
         | _ \<Rightarrow> None)
      else if in_range 0xE0 0xEF b1 then
        (case bs of
           b2 # b3 # r \<Rightarrow>
             if in_range (if b1 = 0xE0 then 0xA0 else 0x80) (if b1 = 0xED then 0x9F else 0xBF) b2
                \<and> in_range 0x80 0xBF b3
             then Some ((b1 - 0xE0) * 0x1000 + (b2 - 0x80) * 0x40 + (b3 - 0x80), r) else None
         | _ \<Rightarrow> None)
      else if in_range 0xF0 0xF4 b1 then
        (case bs of
           b2 # b3 # b4 # r \<Rightarrow>
             if in_range (if b1 = 0xF0 then 0x90 else 0x80) (if b1 = 0xF4 then 0x8F else 0xBF) b2
                \<and> in_range 0x80 0xBF b3 \<and> in_range 0x80 0xBF b4
             then Some ((b1 - 0xF0) * 0x40000 + (b2 - 0x80) * 0x1000 + (b3 - 0x80) * 0x40
                        + (b4 - 0x80), r)
             else None
         | _ \<Rightarrow> None)
      else None)"

function utf8_decode_nat :: "nat list \<Rightarrow> pystr result" where
  "utf8_decode_nat [] = Inr []"
| "utf8_decode_nat (b # bs) =
     (case utf8_step b bs of
        None \<Rightarrow> Inl UnicodeDecodeError
      | Some (c, r) \<Rightarrow> rbind (utf8_decode_nat r) (\<lambda>cs. Inr (c # cs)))"
  by pat_completeness auto
termination
  by (relation "measure length") (auto simp: utf8_step_def split: if_splits list.splits)


text \<open>\<^verbatim>\<open>raw.decode('utf-8')\<close>: the bytes read as integers, decoded step by step.\<close>

definition utf8_decode :: "byte list \<Rightarrow> pystr result" where
  "utf8_decode bs = utf8_decode_nat (map unat bs)"

section \<open>Arithmetic of the byte layout\<close>

text \<open>The code point is split into 6-bit groups; these lemmas recombine the groups and read them back.\<close>

lemma mod_64_le_63 [simp]: "(x::nat) mod 64 \<le> 63"
  using mod_less_divisor [of 64 x] by linarith

lemma split_64: "(c::nat) = c div 64 * 64 + c mod 64" "c mod 64 < 64"
  by simp_all

lemma split_4096: "(c::nat) = c div 4096 * 4096 + c div 64 mod 64 * 64 + c mod 64"
proof -
  have "c div 4096 = c div 64 div 64"
    using div_mult2_eq [of c 64 64] by simp
  then have "c div 64 = c div 4096 * 64 + c div 64 mod 64"
    by simp
  then show ?thesis using split_64(1) [of c] by linarith
qed

lemma split_262144:
  "(c::nat) = c div 262144 * 262144 + c div 4096 mod 64 * 4096 + c div 64 mod 64 * 64 + c mod 64"
proof -
  have "c div 262144 = c div 4096 div 64"
    using div_mult2_eq [of c 4096 64] by simp
  then have "c div 4096 = c div 262144 * 64 + c div 4096 mod 64"
    by simp
  then show ?thesis using split_4096 [of c] by linarith
qed

lemma digits2: "(d::nat) < 64 \<Longrightarrow> (a * 64 + d) div 64 = a \<and> (a * 64 + d) mod 64 = d"
  by simp

lemma digits3:
  assumes "(x::nat) < 64" "y < 64"
  shows "(a * 4096 + x * 64 + y) div 4096 = a \<and> (a * 4096 + x * 64 + y) div 64 mod 64 = x
    \<and> (a * 4096 + x * 64 + y) mod 64 = y"
proof -
  have n: "a * 4096 + x * 64 + y = (a * 64 + x) * 64 + y" by simp
  have "(a * 4096 + x * 64 + y) div 4096 = (a * 4096 + x * 64 + y) div 64 div 64"
    using div_mult2_eq [of _ 64 64] by simp
  then show ?thesis using assms digits2 [of y "a * 64 + x"] digits2 [of x a] by (simp only: n)
qed

lemma digits4:
  assumes "(x::nat) < 64" "y < 64" "z < 64"
  shows "(a * 262144 + x * 4096 + y * 64 + z) div 262144 = a
    \<and> (a * 262144 + x * 4096 + y * 64 + z) div 4096 mod 64 = x
    \<and> (a * 262144 + x * 4096 + y * 64 + z) div 64 mod 64 = y
    \<and> (a * 262144 + x * 4096 + y * 64 + z) mod 64 = z"
proof -
  let ?n = "a * 262144 + x * 4096 + y * 64 + z"
  have n: "?n = (a * 64 + x) * 4096 + y * 64 + z" by simp
  have d: "?n div 262144 = ?n div 4096 div 64"
    using div_mult2_eq [of _ 4096 64] by simp
  have "?n div 4096 = a * 64 + x \<and> ?n div 64 mod 64 = y \<and> ?n mod 64 = z"
    using digits3 [OF assms(2,3), of "a * 64 + x"] by (simp only: n)
  with d digits2 [OF assms(1), of a] show ?thesis by simp
qed

section \<open>Encoding then decoding\<close>

text \<open>Each range of code points: the decoder's step reads back what the encoder wrote.\<close>

lemma enc2:
  assumes "0x80 \<le> c" "c < (0x800::nat)"
  shows "utf8_step (0xC0 + c div 0x40) ([0x80 + c mod 0x40] @ r) = Some (c, r)"
proof -
  have "2 \<le> c div 64" "c div 64 < 32" using assms by auto
  then show ?thesis by (simp add: utf8_step_def in_range_def)
qed

lemma enc3:
  assumes "0x800 \<le> c" "c < (0x10000::nat)" "\<not> (0xD800 \<le> c \<and> c < 0xE000)"
  shows "utf8_step (0xE0 + c div 0x1000) ([0x80 + c div 0x40 mod 0x40, 0x80 + c mod 0x40] @ r) = Some (c, r)"
proof -
  let ?a = "c div 4096" and ?b = "c div 64 mod 64" and ?d = "c mod 64"
  have c: "c = ?a * 4096 + ?b * 64 + ?d" by (rule split_4096)
  have "?b < 64" "?d < 64" by simp_all
  then have "?a < 16" "?a = 0 \<Longrightarrow> 32 \<le> ?b" "?a = 13 \<Longrightarrow> ?b < 32"
    using assms c by linarith+
  with c show ?thesis by (auto simp: utf8_step_def in_range_def)
qed

lemma enc4:
  assumes "0x10000 \<le> c" "c < (0x110000::nat)"
  shows "utf8_step (0xF0 + c div 0x40000)
    ([0x80 + c div 0x1000 mod 0x40, 0x80 + c div 0x40 mod 0x40, 0x80 + c mod 0x40] @ r) = Some (c, r)"
proof -
  let ?a = "c div 262144" and ?b = "c div 4096 mod 64" and ?e = "c div 64 mod 64" and ?d = "c mod 64"
  have c: "c = ?a * 262144 + ?b * 4096 + ?e * 64 + ?d" by (rule split_262144)
  have bnd: "?b < 64" "?e < 64" "?d < 64" by simp_all
  then have "?a < 5" "?a = 0 \<Longrightarrow> 16 \<le> ?b" "?a = 4 \<Longrightarrow> ?b < 16"
    using assms c by linarith+
  with c bnd show ?thesis by (auto simp: utf8_step_def in_range_def)
qed

lemma utf8_encode_char_step:
  assumes "is_scalar c"
  shows "\<exists>b bs. utf8_encode_char c = Some (b # bs) \<and> utf8_step b (bs @ r) = Some (c, r)"
proof -
  consider "c < 0x80" | "0x80 \<le> c" "c < 0x800" | "0x800 \<le> c" "c < 0x10000"
    | "0x10000 \<le> c" "c < 0x110000"
    using assms by (force simp: is_scalar_def)
  then show ?thesis
  proof cases
    case 1
    then show ?thesis by (simp add: utf8_encode_char_def utf8_step_def)
  next
    case 2
    then show ?thesis using enc2 [of c r] by (simp add: utf8_encode_char_def)
  next
    case 3
    then show ?thesis using enc3 [of c r] assms by (simp add: utf8_encode_char_def is_scalar_def)
  next
    case 4
    then show ?thesis using enc4 [of c r] by (simp add: utf8_encode_char_def)
  qed
qed

lemma utf8_encode_char_None_iff: "utf8_encode_char c = None \<longleftrightarrow> \<not> is_scalar c"
  by (auto simp: utf8_encode_char_def is_scalar_def)

lemma utf8_encode_char_bytes:
  "utf8_encode_char c = Some ns \<Longrightarrow> list_all (\<lambda>n. n < 256) ns"
  by (auto simp: utf8_encode_char_def split: if_splits)

lemma utf8_encode_char_nonzero:
  "utf8_encode_char c = Some ns \<Longrightarrow> 0 < c \<Longrightarrow> list_all (\<lambda>n. 0 < n) ns"
  by (auto simp: utf8_encode_char_def split: if_splits)

lemma utf8_encode_char_length:
  "utf8_encode_char c = Some ns \<Longrightarrow> 1 \<le> length ns \<and> length ns \<le> 4"
  by (auto simp: utf8_encode_char_def split: if_splits)

lemma utf8_encode_Cons_Inr:
  "utf8_encode (c # cs) = Inr bs \<longleftrightarrow>
     (\<exists>ns bs'. utf8_encode_char c = Some ns \<and> utf8_encode cs = Inr bs' \<and> bs = map word_of_nat ns @ bs')"
  by (auto simp: rbind_eq_Inr_iff split: option.splits)

lemma utf8_encode_Inr_iff: "(\<exists>bs. utf8_encode s = Inr bs) \<longleftrightarrow> list_all is_scalar s"
proof (induction s)
  case Nil
  then show ?case by simp
next
  case (Cons c cs)
  show ?case
  proof (cases "utf8_encode_char c")
    case None
    then show ?thesis using utf8_encode_char_None_iff [of c] by simp
  next
    case (Some ns)
    then have "is_scalar c" using utf8_encode_char_None_iff [of c] by simp
    with Some Cons.IH show ?thesis by (simp add: rbind_eq_Inr_iff)
  qed
qed

lemma utf8_encode_Inl: "utf8_encode s = Inl e \<Longrightarrow> e = UnicodeEncodeError"
  by (induction s) (auto simp: rbind_eq_Inl_iff split: option.splits)

lemma utf8_decode_encode_nat:
  "utf8_encode s = Inr bs \<Longrightarrow> utf8_decode_nat (map unat bs) = Inr s"
proof (induction s arbitrary: bs)
  case Nil
  then show ?case by simp
next
  case (Cons c cs)
  then obtain ns bs' where ns: "utf8_encode_char c = Some ns" and cs: "utf8_encode cs = Inr bs'"
    and bs: "bs = map word_of_nat ns @ bs'"
    using Cons.prems by (simp only: utf8_encode_Cons_Inr) blast
  have "is_scalar c" using ns utf8_encode_char_None_iff [of c] by auto
  then obtain b pre where enc: "utf8_encode_char c = Some (b # pre)"
    and st: "utf8_step b (pre @ map unat bs') = Some (c, map unat bs')"
    using utf8_encode_char_step by blast
  have m: "map unat (map word_of_nat ns :: byte list) = ns"
    using utf8_encode_char_bytes [OF ns] by (rule map_unat_of_nat_bytes)
  have "map unat bs = b # pre @ map unat bs'"
    using bs ns enc m by simp
  then show ?case using st Cons.IH [OF cs] by simp
qed

section \<open>Decoding then encoding\<close>

text \<open>Each accepted lead byte: the encoder writes back exactly the bytes the step consumed.\<close>

lemma dec2:
  assumes "in_range 0xC2 0xDF b1" "in_range 0x80 0xBF b2"
  shows "utf8_encode_char ((b1 - 0xC0) * 0x40 + (b2 - 0x80)) = Some [b1, b2]"
proof -
  define a x where "a = b1 - 0xC0" "x = b2 - 0x80"
  have r: "2 \<le> a" "a < 32" "x < 64" "b1 = 0xC0 + a" "b2 = 0x80 + x"
    using assms unfolding a_x_def in_range_def by arith+
  define c where "c = a * 64 + x"
  have d: "c div 64 = a" "c mod 64 = x"
    using digits2 [OF r(3), of a] unfolding c_def by simp_all
  have "0x80 \<le> c" "c < 0x800"
    using r unfolding c_def by linarith+
  then have "utf8_encode_char c = Some [0xC0 + c div 0x40, 0x80 + c mod 0x40]"
    by (simp add: utf8_encode_char_def)
  then have "utf8_encode_char c = Some [b1, b2]" using d r(4,5) by simp
  then show ?thesis unfolding c_def a_x_def .
qed

lemma dec3:
  assumes "in_range 0xE0 0xEF b1"
    "in_range (if b1 = 0xE0 then 0xA0 else 0x80) (if b1 = 0xED then 0x9F else 0xBF) b2"
    "in_range 0x80 0xBF b3"
  shows "utf8_encode_char ((b1 - 0xE0) * 0x1000 + (b2 - 0x80) * 0x40 + (b3 - 0x80)) = Some [b1, b2, b3]"
proof -
  define a x y where "a = b1 - 0xE0" "x = b2 - 0x80" "y = b3 - 0x80"
  have r: "a \<le> 15" "x < 64" "y < 64" "a = 0 \<Longrightarrow> 32 \<le> x" "a = 13 \<Longrightarrow> x < 32"
    "b1 = 0xE0 + a" "b2 = 0x80 + x" "b3 = 0x80 + y"
    using assms unfolding a_x_y_def in_range_def by (auto split: if_splits)
  define c where "c = a * 4096 + x * 64 + y"
  have d: "c div 4096 = a" "c div 64 mod 64 = x" "c mod 64 = y"
    using digits3 [OF r(2,3), of a] unfolding c_def by simp_all
  have "0x800 \<le> c" "c < 0x10000"
    using r unfolding c_def by linarith+
  moreover have "\<not> (0xD800 \<le> c \<and> c < 0xE000)"
  proof -
    consider "a \<le> 12" | "a = 13" | "14 \<le> a" by arith
    then show ?thesis using r unfolding c_def by cases linarith+
  qed
  ultimately have "utf8_encode_char c = Some [0xE0 + c div 0x1000, 0x80 + c div 0x40 mod 0x40, 0x80 + c mod 0x40]"
    by (simp add: utf8_encode_char_def)
  then have "utf8_encode_char c = Some [b1, b2, b3]" using d r(6-8) by simp
  then show ?thesis unfolding c_def a_x_y_def .
qed

lemma dec4:
  assumes "in_range 0xF0 0xF4 b1"
    "in_range (if b1 = 0xF0 then 0x90 else 0x80) (if b1 = 0xF4 then 0x8F else 0xBF) b2"
    "in_range 0x80 0xBF b3" "in_range 0x80 0xBF b4"
  shows "utf8_encode_char ((b1 - 0xF0) * 0x40000 + (b2 - 0x80) * 0x1000 + (b3 - 0x80) * 0x40
    + (b4 - 0x80)) = Some [b1, b2, b3, b4]"
proof -
  define a x y z where "a = b1 - 0xF0" "x = b2 - 0x80" "y = b3 - 0x80" "z = b4 - 0x80"
  have r: "a \<le> 4" "x < 64" "y < 64" "z < 64" "a = 0 \<Longrightarrow> 16 \<le> x" "a = 4 \<Longrightarrow> x < 16"
    "b1 = 0xF0 + a" "b2 = 0x80 + x" "b3 = 0x80 + y" "b4 = 0x80 + z"
    using assms unfolding a_x_y_z_def in_range_def by (auto split: if_splits)
  define c where "c = a * 262144 + x * 4096 + y * 64 + z"
  have d: "c div 262144 = a" "c div 4096 mod 64 = x" "c div 64 mod 64 = y" "c mod 64 = z"
    using digits4 [OF r(2,3,4), of a] unfolding c_def by simp_all
  have "0x10000 \<le> c" "c < 0x110000"
    using r unfolding c_def by linarith+
  then have "utf8_encode_char c = Some [0xF0 + c div 0x40000, 0x80 + c div 0x1000 mod 0x40,
      0x80 + c div 0x40 mod 0x40, 0x80 + c mod 0x40]"
    by (simp add: utf8_encode_char_def)
  then have "utf8_encode_char c = Some [b1, b2, b3, b4]" using d r(7-10) by simp
  then show ?thesis unfolding c_def a_x_y_z_def .
qed

lemma utf8_step_Some:
  assumes st: "utf8_step b bs = Some (c, r)"
  shows "\<exists>pre. bs = pre @ r \<and> utf8_encode_char c = Some (b # pre)"
proof (cases "b \<le> 0x7F")
  case True
  with st show ?thesis by (simp add: utf8_step_def utf8_encode_char_def)
next
  case b: False
  show ?thesis
  proof (cases "in_range 0xC2 0xDF b")
    case True
    with b st obtain b2 where "bs = b2 # r" "in_range 0x80 0xBF b2"
      "c = (b - 0xC0) * 0x40 + (b2 - 0x80)"
      by (auto simp: utf8_step_def split: list.splits if_splits)
    with True dec2 [of b b2] show ?thesis by simp
  next
    case n2: False
    show ?thesis
    proof (cases "in_range 0xE0 0xEF b")
      case True
      with b n2 st obtain b2 b3 where "bs = b2 # b3 # r"
        "in_range (if b = 0xE0 then 0xA0 else 0x80) (if b = 0xED then 0x9F else 0xBF) b2"
        "in_range 0x80 0xBF b3" "c = (b - 0xE0) * 0x1000 + (b2 - 0x80) * 0x40 + (b3 - 0x80)"
        by (auto simp: utf8_step_def split: list.splits if_splits)
      with True dec3 [of b b2 b3] show ?thesis by simp
    next
      case n3: False
      with b n2 st have "in_range 0xF0 0xF4 b"
        by (auto simp: utf8_step_def split: if_splits)
      moreover from this b n2 n3 st obtain b2 b3 b4 where "bs = b2 # b3 # b4 # r"
        "in_range (if b = 0xF0 then 0x90 else 0x80) (if b = 0xF4 then 0x8F else 0xBF) b2"
        "in_range 0x80 0xBF b3" "in_range 0x80 0xBF b4"
        "c = (b - 0xF0) * 0x40000 + (b2 - 0x80) * 0x1000 + (b3 - 0x80) * 0x40 + (b4 - 0x80)"
        by (auto simp: utf8_step_def split: list.splits if_splits)
      ultimately show ?thesis using dec4 [of b b2 b3 b4] by simp
    qed
  qed
qed

lemma utf8_encode_decode_nat:
  "utf8_decode_nat ns = Inr s \<Longrightarrow> list_all (\<lambda>n. n < 256) ns \<Longrightarrow> utf8_encode s = Inr (map word_of_nat ns)"
proof (induction ns arbitrary: s rule: utf8_decode_nat.induct)
  case 1
  then show ?case by simp
next
  case (2 b bs)
  then obtain c r cs where st: "utf8_step b bs = Some (c, r)" and dr: "utf8_decode_nat r = Inr cs"
    and s: "s = c # cs"
    by (auto simp: rbind_eq_Inr_iff split: option.splits)
  from utf8_step_Some [OF st] obtain pre where bs: "bs = pre @ r"
    and enc: "utf8_encode_char c = Some (b # pre)" by blast
  have "list_all (\<lambda>n. n < 256) r" using "2.prems"(2) bs by simp
  with "2.IH" [OF st refl dr] have "utf8_encode cs = Inr (map word_of_nat r)" by simp
  with enc bs s show ?case by simp
qed

section \<open>Zero bytes, lengths, ASCII\<close>

lemma utf8_encode_takeWhile:
  "utf8_encode s = Inr bs \<Longrightarrow>
     utf8_encode (takeWhile (\<lambda>c. c \<noteq> 0) s) = Inr (takeWhile (\<lambda>b. b \<noteq> 0) bs)"
proof (induction s arbitrary: bs)
  case Nil
  then show ?case by simp
next
  case (Cons c cs)
  then obtain ns bs' where ns: "utf8_encode_char c = Some ns" and cs: "utf8_encode cs = Inr bs'"
    and bs: "bs = map word_of_nat ns @ bs'"
    using Cons.prems by (simp only: utf8_encode_Cons_Inr) blast
  show ?case
  proof (cases "c = 0")
    case True
    then have "ns = [0]" using ns by (simp add: utf8_encode_char_def)
    with True bs show ?thesis by simp
  next
    case False
    have "list_all (\<lambda>n. 0 < n \<and> n < 256) ns"
      using utf8_encode_char_nonzero [OF ns] utf8_encode_char_bytes [OF ns] False
      by (simp add: list_all_iff)
    then have "\<forall>b \<in> set (map word_of_nat ns :: byte list). b \<noteq> 0"
      by (auto simp: list_all_iff byte_eq_0_iff_unat)
    then have "takeWhile (\<lambda>b. b \<noteq> 0) bs = map word_of_nat ns @ takeWhile (\<lambda>b. b \<noteq> 0) bs'"
      using bs takeWhile_append2 [of "map word_of_nat ns :: byte list" "\<lambda>b. b \<noteq> 0" bs'] by blast
    with False ns Cons.IH [OF cs] show ?thesis by simp
  qed
qed

lemma utf8_encode_length:
  "utf8_encode s = Inr bs \<Longrightarrow> length s \<le> length bs \<and> length bs \<le> 4 * length s"
proof (induction s arbitrary: bs)
  case Nil
  then show ?case by simp
next
  case (Cons c cs)
  then obtain ns bs' where ns: "utf8_encode_char c = Some ns" and cs: "utf8_encode cs = Inr bs'"
    and bs: "bs = map word_of_nat ns @ bs'"
    using Cons.prems by (simp only: utf8_encode_Cons_Inr) blast
  with utf8_encode_char_length [OF ns] Cons.IH [OF cs] show ?case by simp
qed

lemma utf8_encode_ascii:
  "list_all (\<lambda>c. c < 0x80) s \<Longrightarrow> utf8_encode s = Inr (map word_of_nat s)"
  by (induction s) (simp_all add: utf8_encode_char_def)

section \<open>The codec on bytes\<close>

lemma utf8_decode_encode: "utf8_encode s = Inr bs \<Longrightarrow> utf8_decode bs = Inr s"
  by (simp add: utf8_decode_def utf8_decode_encode_nat)

lemma utf8_encode_decode: "utf8_decode bs = Inr s \<Longrightarrow> utf8_encode s = Inr bs"
proof -
  assume "utf8_decode bs = Inr s"
  then have "utf8_encode s = Inr (map word_of_nat (map unat bs))"
    by (intro utf8_encode_decode_nat) (simp_all add: utf8_decode_def list_all_iff)
  then show ?thesis by simp
qed

lemma utf8_decode_Inl: "utf8_decode bs = Inl e \<Longrightarrow> e = UnicodeDecodeError"
proof -
  have "utf8_decode_nat ns = Inl e \<Longrightarrow> e = UnicodeDecodeError" for ns
    by (induction ns rule: utf8_decode_nat.induct) (auto simp: rbind_eq_Inl_iff split: option.splits)
  then show "utf8_decode bs = Inl e \<Longrightarrow> e = UnicodeDecodeError" by (simp add: utf8_decode_def)
qed

text \<open>The codec is a bijection between strings of scalar values and well-formed bytes.\<close>

theorem utf8_codec_bijection: "utf8_decode bs = Inr s \<longleftrightarrow> utf8_encode s = Inr bs"
  using utf8_decode_encode utf8_encode_decode by blast

end
