(* ===== verification/String_Helper.thy ===== *)
theory String_Helper
  imports Utf8
begin

text \<open>
  The string helpers \<^verbatim>\<open>string_to_bytes\<close> and \<^verbatim>\<open>bytes_to_string\<close> of
  \<^verbatim>\<open>pyvlx/string_helper.py\<close>, which the frames call but which are not among the source
  files. They are modelled from the specification (section 4.1): a string is encoded
  in UTF-8 and right-padded with zero bytes to a fixed size, and refused with
  \<open>PayloadTooLong\<close> when its encoding does not fit; a buffer is decoded up to its
  first zero byte, or whole when it has none.
\<close>

section \<open>Operations\<close>

definition string_to_bytes :: "pystr \<Rightarrow> nat \<Rightarrow> byte list result" where
  "string_to_bytes s max_size =
     rbind (utf8_encode s)
       (\<lambda>enc. if max_size < length enc then Inl PayloadTooLong
              else Inr (enc @ replicate (max_size - length enc) 0))"

definition bytes_to_string :: "byte list \<Rightarrow> pystr result" where
  "bytes_to_string raw = utf8_decode (takeWhile (\<lambda>b. b \<noteq> 0) raw)"

declare string_to_bytes_def [codec_defs] bytes_to_string_def [codec_defs]

section \<open>Encoding into a fixed-max_size field\<close>

lemma string_to_bytes_Inr_iff:
  "string_to_bytes s max_size = Inr bs \<longleftrightarrow>
     (\<exists>enc. utf8_encode s = Inr enc \<and> length enc \<le> max_size \<and> bs = enc @ replicate (max_size - length enc) 0)"
  by (auto simp: string_to_bytes_def rbind_eq_Inr_iff not_less split: if_splits)

lemma string_to_bytes_length: "string_to_bytes s max_size = Inr bs \<Longrightarrow> length bs = max_size"
  by (auto simp: string_to_bytes_Inr_iff)

lemma string_to_bytes_Inl_iff:
  "string_to_bytes s max_size = Inl e \<longleftrightarrow>
     (utf8_encode s = Inl e) \<or> (\<exists>enc. utf8_encode s = Inr enc \<and> max_size < length enc \<and> e = PayloadTooLong)"
  by (cases "utf8_encode s") (auto simp: string_to_bytes_def)

section \<open>Decoding a fixed-max_size field\<close>

lemma bytes_to_string_zero_padding:
  "bytes_to_string (enc @ replicate n 0) = utf8_decode (takeWhile (\<lambda>b. b \<noteq> 0) enc)"
proof (cases n)
  case 0
  then show ?thesis by (simp add: bytes_to_string_def)
next
  case (Suc m)
  then have "takeWhile (\<lambda>b. b \<noteq> 0) (enc @ replicate n 0) = takeWhile (\<lambda>b. b \<noteq> (0::byte)) enc"
    by (intro takeWhile_replicate_stop) simp_all
  then show ?thesis by (simp add: bytes_to_string_def)
qed

lemma string_to_bytes_roundtrip:
  assumes "string_to_bytes s max_size = Inr bs"
  shows "bytes_to_string bs = Inr (takeWhile (\<lambda>c. c \<noteq> 0) s)"
proof -
  from assms obtain enc where enc: "utf8_encode s = Inr enc"
    and bs: "bs = enc @ replicate (max_size - length enc) 0"
    by (auto simp: string_to_bytes_Inr_iff)
  have "utf8_encode (takeWhile (\<lambda>c. c \<noteq> 0) s) = Inr (takeWhile (\<lambda>b. b \<noteq> 0) enc)"
    using enc by (rule utf8_encode_takeWhile)
  then have "utf8_decode (takeWhile (\<lambda>b. b \<noteq> 0) enc) = Inr (takeWhile (\<lambda>c. c \<noteq> 0) s)"
    by (rule utf8_decode_encode)
  then show ?thesis by (simp add: bs bytes_to_string_zero_padding)
qed

end
