(* ===== verification/Frame_Base.thy ===== *)
theory Frame_Base
  imports Prelude
begin

text \<open>
  What every frame shares (\<^verbatim>\<open>pyvlx/frame.py\<close> and \<^verbatim>\<open>pyvlx/const.py\<close>, not among the
  source files, modelled from the specification, sections 3 and 4.2): the command
  catalog, each command with its 16-bit code, and the base record \<open>frame_base\<close> that
  binds a frame to its command. Every frame class extends the base record, as every
  frame class of pyvlx extends \<^verbatim>\<open>FrameBase\<close>. The catalog here holds the password
  commands of the gateway protocol; the rest of the enumeration is not modelled.
\<close>

section \<open>The command catalog\<close>

datatype command =
    GW_PASSWORD_ENTER_REQ
  | GW_PASSWORD_ENTER_CFM
  | GW_PASSWORD_CHANGE_REQ
  | GW_PASSWORD_CHANGE_CFM
  | GW_PASSWORD_CHANGE_NTF

primrec command_value :: "command \<Rightarrow> 16 word" where
  "command_value GW_PASSWORD_ENTER_REQ = 0x3000"
| "command_value GW_PASSWORD_ENTER_CFM = 0x3001"
| "command_value GW_PASSWORD_CHANGE_REQ = 0x3002"
| "command_value GW_PASSWORD_CHANGE_CFM = 0x3003"
| "command_value GW_PASSWORD_CHANGE_NTF = 0x3004"

definition all_commands :: "command list" where
  "all_commands = [GW_PASSWORD_ENTER_REQ, GW_PASSWORD_ENTER_CFM, GW_PASSWORD_CHANGE_REQ,
     GW_PASSWORD_CHANGE_CFM, GW_PASSWORD_CHANGE_NTF]"

text \<open>\<^verbatim>\<open>Command(value)\<close>: the member with that value, if there is one.\<close>

definition command_of_value :: "16 word \<Rightarrow> command option" where
  "command_of_value v = find (\<lambda>c. command_value c = v) all_commands"

section \<open>The frame base\<close>

record frame_base =
  command :: command

declare command_of_value_def [codec_defs] all_commands_def [codec_defs]

section \<open>Lemmas\<close>

lemma all_commands_complete: "c \<in> set all_commands"
  by (cases c) (simp_all add: all_commands_def)

lemma command_value_inj: "command_value c = command_value d \<longleftrightarrow> c = d"
  by (cases c; cases d) simp_all

lemma command_of_value_Some: "command_of_value v = Some c \<Longrightarrow> command_value c = v"
  by (auto simp: command_of_value_def find_Some_iff)

lemma command_of_value_None: "command_of_value v = None \<longleftrightarrow> v \<notin> range command_value"
  using all_commands_complete by (auto simp: command_of_value_def find_None_iff)

lemma command_of_value_command_value [simp]: "command_of_value (command_value c) = Some c"
proof -
  obtain d where "command_of_value (command_value c) = Some d"
    using command_of_value_None [of "command_value c"] by (cases "command_of_value (command_value c)") auto
  with command_of_value_Some command_value_inj show ?thesis by metis
qed

end
