(* ===== verification/Frame_Password_Enter.thy ===== *)
theory Frame_Password_Enter
  imports String_Helper Frame_Base
begin

text \<open>
  The source file \<^verbatim>\<open>src/new_api/pyvlx/frame_password_enter.py\<close>: the request that
  carries the gateway password (\<^verbatim>\<open>FramePasswordEnterRequest\<close>), the status enum
  (\<^verbatim>\<open>PasswortEnterConfirmationStatus\<close>) and the confirmation that answers it
  (\<^verbatim>\<open>FramePasswordEnterConfirmation\<close>). Each class is a record extending
  \<open>frame_base\<close>; each method is one definition: \<^verbatim>\<open>__init__\<close> builds the record,
  \<^verbatim>\<open>get_payload\<close> returns the payload or raises, \<^verbatim>\<open>from_payload\<close> returns the updated
  frame or raises (a raise leaves the object unchanged, as no assignment ran), and
  \<^verbatim>\<open>__str__\<close> returns the Python string or raises.
\<close>

section \<open>FramePasswordEnterRequest\<close>

record frame_password_enter_request = frame_base +
  password :: "pystr option"

definition MAX_SIZE :: nat where
  "MAX_SIZE = 32"

definition req_init :: "pystr option \<Rightarrow> frame_password_enter_request" where
  "req_init pw = \<lparr>command = GW_PASSWORD_ENTER_REQ, password = pw\<rparr>"

definition req_get_payload :: "frame_password_enter_request \<Rightarrow> byte list result" where
  "req_get_payload f =
     (case password f of
        None \<Rightarrow> Inl (PyVLXException ''password is none'')
      | Some p \<Rightarrow>
          if MAX_SIZE < length p then Inl (PyVLXException ''password is too long'')
          else string_to_bytes p MAX_SIZE)"

definition req_from_payload ::
  "frame_password_enter_request \<Rightarrow> byte list \<Rightarrow> frame_password_enter_request result" where
  "req_from_payload f payload = rbind (bytes_to_string payload) (\<lambda>s. Inr (f\<lparr>password := Some s\<rparr>))"

definition squote :: string where
  "squote = [CHR 0x27]"

text \<open>\<^verbatim>\<open>self.password[:2]\<close> raises \<open>TypeError\<close> when the password is \<^verbatim>\<open>None\<close>.\<close>

definition req_str :: "frame_password_enter_request \<Rightarrow> pystr result" where
  "req_str f =
     (case password f of
        None \<Rightarrow> Inl TypeError
      | Some p \<Rightarrow> Inr (ascii (''<FramePasswordEnterRequest password='' @ squote) @ take 2 p
                       @ ascii (''******'' @ squote @ ''/>'')))"

section \<open>PasswortEnterConfirmationStatus\<close>

datatype PasswortEnterConfirmationStatus = SUCCESSFUL | FAILED

primrec status_value :: "PasswortEnterConfirmationStatus \<Rightarrow> int" where
  "status_value SUCCESSFUL = 0"
| "status_value FAILED = 1"

text \<open>\<^verbatim>\<open>PasswortEnterConfirmationStatus(v)\<close>: the member with value \<open>v\<close>, else \<open>ValueError\<close>.\<close>

definition status_of_value :: "int \<Rightarrow> PasswortEnterConfirmationStatus result" where
  "status_of_value v =
     (if v = 0 then Inr SUCCESSFUL else if v = 1 then Inr FAILED else Inl ValueError)"

text \<open>\<^verbatim>\<open>str()\<close> of a member of a plain \<^verbatim>\<open>Enum\<close>: the class name, a dot, the member name.\<close>

primrec status_str :: "PasswortEnterConfirmationStatus \<Rightarrow> string" where
  "status_str SUCCESSFUL = ''PasswortEnterConfirmationStatus.SUCCESSFUL''"
| "status_str FAILED = ''PasswortEnterConfirmationStatus.FAILED''"

section \<open>FramePasswordEnterConfirmation\<close>

record frame_password_enter_confirmation = frame_base +
  status :: PasswortEnterConfirmationStatus

definition cfm_init :: "PasswortEnterConfirmationStatus \<Rightarrow> frame_password_enter_confirmation" where
  "cfm_init st = \<lparr>command = GW_PASSWORD_ENTER_CFM, status = st\<rparr>"

definition cfm_get_payload :: "frame_password_enter_confirmation \<Rightarrow> byte list result" where
  "cfm_get_payload f = py_bytes [status_value (status f)]"

text \<open>\<^verbatim>\<open>payload[0]\<close> raises \<open>IndexError\<close> on empty bytes; the byte is read as a Python int.\<close>

definition cfm_from_payload ::
  "frame_password_enter_confirmation \<Rightarrow> byte list \<Rightarrow> frame_password_enter_confirmation result" where
  "cfm_from_payload f payload =
     (case payload of
        [] \<Rightarrow> Inl IndexError
      | b # _ \<Rightarrow> rbind (status_of_value (uint b)) (\<lambda>st. Inr (f\<lparr>status := st\<rparr>)))"

definition cfm_str :: "frame_password_enter_confirmation \<Rightarrow> pystr" where
  "cfm_str f =
     ascii (''<FramePasswordEnterConfirmation status='' @ squote @ status_str (status f) @ squote
            @ ''/>'')"

declare req_init_def [codec_defs] req_get_payload_def [codec_defs] req_from_payload_def [codec_defs]
  req_str_def [codec_defs] MAX_SIZE_def [codec_defs] squote_def [codec_defs] status_of_value_def [codec_defs]
  cfm_init_def [codec_defs] cfm_get_payload_def [codec_defs] cfm_from_payload_def [codec_defs]
  cfm_str_def [codec_defs]

section \<open>Request: serialisation\<close>

text \<open>
  The guard on \<^verbatim>\<open>len(self.password)\<close> counts code points, the helper counts bytes; as
  every code point takes at least one byte, a password the helper accepts always passes
  the guard, and the payload is exactly what the helper returns.
\<close>

lemma req_get_payload_Inr_iff:
  "req_get_payload f = Inr bs \<longleftrightarrow> (\<exists>p. password f = Some p \<and> string_to_bytes p MAX_SIZE = Inr bs)"
proof (cases "password f")
  case None
  then show ?thesis by (simp add: req_get_payload_def)
next
  case (Some p)
  have "string_to_bytes p MAX_SIZE = Inr bs \<Longrightarrow> length p \<le> MAX_SIZE"
    by (auto simp: string_to_bytes_Inr_iff dest: utf8_encode_length)
  with Some show ?thesis by (auto simp: req_get_payload_def not_less)
qed

lemma req_get_payload_None: "password f = None \<Longrightarrow> req_get_payload f = Inl (PyVLXException ''password is none'')"
  by (simp add: req_get_payload_def)

lemma req_from_payload_Inr_iff:
  "req_from_payload f payload = Inr g \<longleftrightarrow> (\<exists>s. bytes_to_string payload = Inr s \<and> g = f\<lparr>password := Some s\<rparr>)"
  by (auto simp: req_from_payload_def rbind_eq_Inr_iff)

lemma req_from_payload_command: "req_from_payload f payload = Inr g \<Longrightarrow> command g = command f"
  by (auto simp: req_from_payload_Inr_iff)

lemma req_payload_decodes:
  "req_get_payload f = Inr bs \<Longrightarrow> password f = Some p \<Longrightarrow>
     req_from_payload g bs = Inr (g\<lparr>password := Some (takeWhile (\<lambda>c. c \<noteq> 0) p)\<rparr>)"
  by (auto simp: req_get_payload_Inr_iff req_from_payload_Inr_iff dest: string_to_bytes_roundtrip)

text \<open>C1: the request payload is the UTF-8 password, zero-padded to 32 bytes, exactly when the password is set and its encoding fits.\<close>

theorem req_get_payload_spec:
  "req_get_payload f = Inr bs \<longleftrightarrow>
     (\<exists>p enc. password f = Some p \<and> utf8_encode p = Inr enc \<and> length enc \<le> 32
        \<and> bs = enc @ replicate (32 - length enc) 0)"
  by (auto simp: req_get_payload_Inr_iff string_to_bytes_Inr_iff MAX_SIZE_def)

text \<open>C6: every payload the request serialises to is exactly 32 bytes long.\<close>

theorem req_get_payload_length: "req_get_payload f = Inr bs \<Longrightarrow> length bs = 32"
  by (auto simp: req_get_payload_Inr_iff MAX_SIZE_def dest: string_to_bytes_length)

text \<open>
  C3: serialisation fails exactly in these cases: no password (\<^verbatim>\<open>password is none\<close>),
  more than 32 code points (\<^verbatim>\<open>password is too long\<close>), a code point UTF-8 cannot encode,
  or an encoding longer than 32 bytes (\<open>PayloadTooLong\<close> from the helper).
\<close>

theorem req_get_payload_errors:
  "req_get_payload f = Inl e \<longleftrightarrow>
     (password f = None \<and> e = PyVLXException ''password is none'')
     \<or> (\<exists>p. password f = Some p \<and> 32 < length p \<and> e = PyVLXException ''password is too long'')
     \<or> (\<exists>p. password f = Some p \<and> length p \<le> 32 \<and> \<not> list_all is_scalar p \<and> e = UnicodeEncodeError)
     \<or> (\<exists>p enc. password f = Some p \<and> length p \<le> 32 \<and> utf8_encode p = Inr enc \<and> 32 < length enc
          \<and> e = PayloadTooLong)"
proof (cases "password f")
  case None
  then show ?thesis by (auto simp: req_get_payload_def)
next
  case (Some p)
  have enc: "utf8_encode p = Inl e' \<longleftrightarrow> \<not> list_all is_scalar p \<and> e' = UnicodeEncodeError" for e'
    using utf8_encode_Inr_iff [of p] utf8_encode_Inl [of p] by (cases "utf8_encode p") auto
  with Some show ?thesis
    by (auto simp: req_get_payload_def MAX_SIZE_def string_to_bytes_Inl_iff not_less)
qed

text \<open>C2: deserialising a serialised request gives back the password up to its first NUL code point.\<close>

theorem req_payload_roundtrip:
  assumes "req_get_payload f = Inr bs" and "password f = Some p"
  shows "req_from_payload g bs = Inr (g\<lparr>password := Some (takeWhile (\<lambda>c. c \<noteq> 0) p)\<rparr>)"
  using assms by (rule req_payload_decodes)

section \<open>Request: the printed form\<close>

lemma req_str_Some:
  "password f = Some p \<Longrightarrow>
     req_str f = Inr (ascii (''<FramePasswordEnterRequest password='' @ squote) @ take 2 p
                      @ ascii (''******'' @ squote @ ''/>''))"
  by (simp add: req_str_def)

text \<open>C8: the printed request shows at most the first two code points of the password: two passwords that agree on them print the same, whatever their lengths.\<close>

theorem req_str_hides_password:
  assumes "password f = Some p" and "password g = Some q" and "take 2 p = take 2 q"
  shows "req_str f = req_str g"
  using assms by (simp add: req_str_Some)

section \<open>Confirmation\<close>

lemma uint_word_of_int_status: "uint (word_of_int (status_value st) :: byte) = status_value st"
  by (cases st) simp_all

lemma status_of_value_status_value [simp]: "status_of_value (status_value st) = Inr st"
  by (cases st) (simp_all add: status_of_value_def)

lemma status_of_value_Inr_iff: "status_of_value v = Inr st \<longleftrightarrow> v = status_value st"
  by (cases st) (auto simp: status_of_value_def)

lemma cfm_get_payload_eq:
  "cfm_get_payload f = Inr [word_of_int (status_value (status f))]"
  by (cases "status f") (simp_all add: cfm_get_payload_def py_bytes_def)

lemma cfm_from_payload_Cons:
  "cfm_from_payload f (b # rest) = rbind (status_of_value (uint b)) (\<lambda>st. Inr (f\<lparr>status := st\<rparr>))"
  by (simp add: cfm_from_payload_def)

lemma cfm_from_payload_command: "cfm_from_payload f payload = Inr g \<Longrightarrow> command g = command f"
  by (auto simp: cfm_from_payload_def rbind_eq_Inr_iff split: list.splits)

text \<open>C7: the confirmation payload is the single byte of the status value, 0 or 1.\<close>

theorem cfm_get_payload_byte:
  "\<exists>b. cfm_get_payload f = Inr [b] \<and> uint b = status_value (status f) \<and> unat b \<le> 1"
  by (cases "status f") (simp_all add: cfm_get_payload_eq)

text \<open>C4: deserialising the payload of a confirmation restores its status.\<close>

theorem cfm_payload_roundtrip:
  "rbind (cfm_get_payload f) (cfm_from_payload g) = Inr (g\<lparr>status := status f\<rparr>)"
  by (simp add: cfm_get_payload_eq cfm_from_payload_Cons uint_word_of_int_status)

text \<open>
  C5: deserialising a confirmation fails exactly on an empty payload (\<open>IndexError\<close>
  from \<^verbatim>\<open>payload[0]\<close>) and on a first byte that is neither 0 nor 1 (\<open>ValueError\<close>
  from the enum); bytes after the first are ignored.
\<close>

theorem cfm_from_payload_errors:
  "cfm_from_payload f payload = Inl e \<longleftrightarrow>
     (payload = [] \<and> e = IndexError) \<or> (payload \<noteq> [] \<and> 1 < unat (hd payload) \<and> e = ValueError)"
proof (cases payload)
  case Nil
  then show ?thesis by (auto simp: cfm_from_payload_def)
next
  case (Cons b rest)
  define n where "n = unat b"
  have u: "uint b = int n" unfolding n_def by (rule uint_nat)
  have "cfm_from_payload f payload =
      (if n = 0 then Inr (f\<lparr>status := SUCCESSFUL\<rparr>) else if n = 1 then Inr (f\<lparr>status := FAILED\<rparr>)
       else Inl ValueError)"
    using Cons u by (simp add: cfm_from_payload_Cons status_of_value_def)
  then show ?thesis using Cons n_def by auto
qed

section \<open>Witnesses\<close>

theorem req_get_payload_spec_witness:
  "req_get_payload (req_init (Some (ascii ''pw''))) = Inr (map word_of_nat (ascii ''pw'') @ replicate 30 0)"
proof -
  have "utf8_encode (ascii ''pw'') = Inr (map word_of_nat (ascii ''pw''))" by code_simp
  then show ?thesis using req_get_payload_spec [of "req_init (Some (ascii ''pw''))"]
    by (simp add: req_init_def ascii_def)
qed

theorem req_payload_roundtrip_witness:
  "req_from_payload (req_init None) (map word_of_nat (ascii ''pw'') @ replicate 30 0)
     = Inr (req_init (Some (ascii ''pw'')))"
proof -
  have h: "req_get_payload (req_init (Some (ascii ''pw''))) = Inr (map word_of_nat (ascii ''pw'') @ replicate 30 0)"
    by code_simp
  have "password (req_init (Some (ascii ''pw''))) = Some (ascii ''pw'')" by (simp add: req_init_def)
  from req_payload_roundtrip [OF h this, of "req_init None"] show ?thesis
    by (simp add: req_init_def ascii_def)
qed

theorem req_get_payload_errors_witness:
  "req_get_payload (req_init (Some [0xD800])) = Inl UnicodeEncodeError"
  using req_get_payload_errors [of "req_init (Some [0xD800])" UnicodeEncodeError]
  by (simp add: req_init_def is_scalar_def)

theorem cfm_from_payload_errors_witness:
  "cfm_from_payload (cfm_init SUCCESSFUL) [2] = Inl ValueError"
  using cfm_from_payload_errors [of "cfm_init SUCCESSFUL" "[2]" ValueError] by simp

theorem req_get_payload_length_witness:
  "length (map word_of_nat (ascii ''secret'') @ replicate 26 (0::byte)) = 32"
proof -
  have "req_get_payload (req_init (Some (ascii ''secret''))) = Inr (map word_of_nat (ascii ''secret'') @ replicate 26 0)"
    by code_simp
  then show ?thesis by (rule req_get_payload_length)
qed

theorem req_str_hides_password_witness:
  "req_str (req_init (Some (ascii ''hunter2''))) = req_str (req_init (Some (ascii ''hu'')))"
  by (rule req_str_hides_password [of _ "ascii ''hunter2''" _ "ascii ''hu''"])
    (simp_all add: req_init_def ascii_def)

end
