(* ===== verification/Frame_Registry.thy ===== *)
theory Frame_Registry
  imports Frame_Password_Enter
begin

text \<open>
  The frame registry of the specification (section 4.5; \<^verbatim>\<open>pyvlx/frame_creation.py\<close>,
  not among the source files): the frames as one closed sum type, each operation of the
  frame contract dispatched to the variant, a registration table built once from
  (command, unpopulated frame) entries and refused with \<open>DuplicateCommand\<close> when two
  entries share a command, and \<open>decode\<close>, which turns a command tag and a payload into
  a populated frame or raises \<open>UnknownCommand\<close> or the variant's parse error. The
  command tag travels as two bytes, most significant first (section 6).
\<close>

section \<open>Frames and the frame contract\<close>

datatype frame =
    ReqFrame frame_password_enter_request
  | CfmFrame frame_password_enter_confirmation

fun frame_command :: "frame \<Rightarrow> command" where
  "frame_command (ReqFrame f) = command f"
| "frame_command (CfmFrame f) = command f"

fun frame_get_payload :: "frame \<Rightarrow> byte list result" where
  "frame_get_payload (ReqFrame f) = req_get_payload f"
| "frame_get_payload (CfmFrame f) = cfm_get_payload f"

fun frame_from_payload :: "frame \<Rightarrow> byte list \<Rightarrow> frame result" where
  "frame_from_payload (ReqFrame f) payload = rbind (req_from_payload f payload) (\<lambda>g. Inr (ReqFrame g))"
| "frame_from_payload (CfmFrame f) payload = rbind (cfm_from_payload f payload) (\<lambda>g. Inr (CfmFrame g))"

fun frame_str :: "frame \<Rightarrow> pystr result" where
  "frame_str (ReqFrame f) = req_str f"
| "frame_str (CfmFrame f) = Inr (cfm_str f)"

section \<open>Registration\<close>

type_synonym registry = "command \<Rightarrow> frame option"

definition registry_entries :: "(command \<times> frame) list" where
  "registry_entries =
     [(GW_PASSWORD_ENTER_REQ, ReqFrame (req_init None)),
      (GW_PASSWORD_ENTER_CFM, CfmFrame (cfm_init SUCCESSFUL))]"

fun register_all :: "registry \<Rightarrow> (command \<times> frame) list \<Rightarrow> registry result" where
  "register_all reg [] = Inr reg"
| "register_all reg ((c, f) # es) =
     (case reg c of
        Some _ \<Rightarrow> Inl DuplicateCommand
      | None \<Rightarrow> register_all (reg(c \<mapsto> f)) es)"

definition build_registry :: "(command \<times> frame) list \<Rightarrow> registry result" where
  "build_registry es = register_all Map.empty es"

section \<open>Decoding and encoding\<close>

definition decode :: "registry \<Rightarrow> 16 word \<Rightarrow> byte list \<Rightarrow> frame result" where
  "decode reg tag payload =
     (case command_of_value tag of
        None \<Rightarrow> Inl UnknownCommand
      | Some c \<Rightarrow>
          (case reg c of
             None \<Rightarrow> Inl UnknownCommand
           | Some f \<Rightarrow> frame_from_payload f payload))"

definition encode :: "frame \<Rightarrow> (16 word \<times> byte list) result" where
  "encode f = rbind (frame_get_payload f) (\<lambda>p. Inr (command_value (frame_command f), p))"

definition decode_frame :: "16 word \<Rightarrow> byte list \<Rightarrow> frame result" where
  "decode_frame tag payload = rbind (build_registry registry_entries) (\<lambda>reg. decode reg tag payload)"

section \<open>The command tag on the wire\<close>

definition tag_bytes :: "16 word \<Rightarrow> byte list" where
  "tag_bytes t = [word_of_nat (unat t div 256), word_of_nat (unat t mod 256)]"

definition tag_of_bytes :: "byte list \<Rightarrow> (16 word \<times> byte list) result" where
  "tag_of_bytes bs =
     (case bs of
        hi # lo # rest \<Rightarrow> Inr (word_of_nat (unat hi * 256 + unat lo), rest)
      | _ \<Rightarrow> Inl IndexError)"

definition encode_wire :: "frame \<Rightarrow> byte list result" where
  "encode_wire f = rbind (encode f) (\<lambda>(tag, payload). Inr (tag_bytes tag @ payload))"

definition decode_wire :: "byte list \<Rightarrow> frame result" where
  "decode_wire bs = rbind (tag_of_bytes bs) (\<lambda>(tag, payload). decode_frame tag payload)"

section \<open>Well-formed frames\<close>

text \<open>A frame is well formed when its command is the one its class's \<^verbatim>\<open>__init__\<close> sets.\<close>

fun frame_wf :: "frame \<Rightarrow> bool" where
  "frame_wf (ReqFrame f) \<longleftrightarrow> command f = GW_PASSWORD_ENTER_REQ"
| "frame_wf (CfmFrame f) \<longleftrightarrow> command f = GW_PASSWORD_ENTER_CFM"

fun frame_nul_free :: "frame \<Rightarrow> bool" where
  "frame_nul_free (ReqFrame f) = (case password f of None \<Rightarrow> True | Some p \<Rightarrow> list_all (\<lambda>c. c \<noteq> 0) p)"
| "frame_nul_free (CfmFrame f) = True"

declare decode_def [codec_defs] encode_wire_def [codec_defs] decode_wire_def [codec_defs]
  tag_bytes_def [codec_defs] tag_of_bytes_def [codec_defs] encode_def [codec_defs] decode_frame_def [codec_defs]
  build_registry_def [codec_defs] registry_entries_def [codec_defs]

section \<open>Registration\<close>

lemma register_all_Inr_iff:
  "register_all m es = Inr r \<longleftrightarrow>
     distinct (map fst es) \<and> list_all (\<lambda>c. m c = None) (map fst es) \<and> r = m ++ map_of es"
proof (induction es arbitrary: m)
  case Nil
  then show ?case by auto
next
  case (Cons e es)
  obtain c f where e: "e = (c, f)" by fastforce
  show ?case
  proof (cases "m c")
    case None
    have fresh: "list_all (\<lambda>d. (m(c \<mapsto> f)) d = None) (map fst es) \<longleftrightarrow>
        c \<notin> set (map fst es) \<and> list_all (\<lambda>d. m d = None) (map fst es)"
      by (auto simp: list_all_iff)
    have upd: "c \<notin> set (map fst es) \<Longrightarrow> m(c \<mapsto> f) ++ map_of es = m ++ map_of ((c, f) # es)"
      by (simp add: map_add_upd_left dom_map_of_conv_image_fst)
    have "register_all m (e # es) = Inr r \<longleftrightarrow> register_all (m(c \<mapsto> f)) es = Inr r"
      using None e by simp
    also have "\<dots> \<longleftrightarrow> distinct (map fst es) \<and> list_all (\<lambda>d. (m(c \<mapsto> f)) d = None) (map fst es)
        \<and> r = m(c \<mapsto> f) ++ map_of es"
      by (rule Cons.IH)
    also have "\<dots> \<longleftrightarrow> distinct (map fst es) \<and> c \<notin> set (map fst es)
        \<and> list_all (\<lambda>d. m d = None) (map fst es) \<and> r = m ++ map_of ((c, f) # es)"
      by (metis fresh upd)
    also have "\<dots> \<longleftrightarrow> distinct (map fst (e # es)) \<and> list_all (\<lambda>d. m d = None) (map fst (e # es))
        \<and> r = m ++ map_of (e # es)"
      using None e by (simp only: list.map distinct.simps list.pred_inject(2) fst_conv) blast
    finally show ?thesis .
  next
    case (Some g)
    then show ?thesis using e by simp
  qed
qed

lemma build_registry_Inr_iff:
  "build_registry es = Inr reg \<longleftrightarrow> distinct (map fst es) \<and> reg = map_of es"
  by (auto simp: build_registry_def register_all_Inr_iff list_all_iff)

lemma register_all_Inl: "register_all m es = Inl e \<Longrightarrow> e = DuplicateCommand"
  by (induction m es rule: register_all.induct) (auto split: option.splits)

lemma build_registry_duplicate:
  "build_registry es = Inl e \<longleftrightarrow> \<not> distinct (map fst es) \<and> e = DuplicateCommand"
proof (cases "build_registry es")
  case (Inl e')
  then have "\<not> distinct (map fst es)" using build_registry_Inr_iff [of es "map_of es"] by auto
  moreover have "e' = DuplicateCommand" using Inl register_all_Inl by (simp add: build_registry_def)
  ultimately show ?thesis using Inl by auto
next
  case (Inr r)
  then show ?thesis using build_registry_Inr_iff [of es r] by auto
qed

lemma registry_entries_built: "build_registry registry_entries = Inr (map_of registry_entries)"
  by (simp add: build_registry_Inr_iff registry_entries_def)

section \<open>Decoding\<close>

lemma decode_frame_eq:
  "decode_frame tag payload =
     (if tag = command_value GW_PASSWORD_ENTER_REQ then frame_from_payload (ReqFrame (req_init None)) payload
      else if tag = command_value GW_PASSWORD_ENTER_CFM then frame_from_payload (CfmFrame (cfm_init SUCCESSFUL)) payload
      else Inl UnknownCommand)"
  by (simp add: decode_frame_def registry_entries_built decode_def command_of_value_def all_commands_def)
    (simp add: registry_entries_def)

lemma req_from_payload_Inl: "req_from_payload f payload = Inl e \<Longrightarrow> e = UnicodeDecodeError"
  by (auto simp: req_from_payload_def bytes_to_string_def rbind_eq_Inl_iff dest: utf8_decode_Inl)

lemma frame_from_payload_not_unknown: "frame_from_payload f payload \<noteq> Inl UnknownCommand"
proof (cases f)
  case (ReqFrame g)
  then show ?thesis using req_from_payload_Inl [of g payload]
    by (cases "req_from_payload g payload") auto
next
  case (CfmFrame g)
  then show ?thesis
    by (auto simp: cfm_from_payload_def status_of_value_def rbind_eq_Inl_iff split: list.splits if_splits)
qed

lemma frame_from_payload_wf:
  "frame_from_payload f payload = Inr g \<Longrightarrow> frame_wf f \<Longrightarrow> frame_wf g \<and> frame_command g = frame_command f"
  by (cases f) (auto simp: rbind_eq_Inr_iff dest: req_from_payload_command cfm_from_payload_command)

section \<open>The command tag on the wire\<close>

lemma tag_of_bytes_tag_bytes: "tag_of_bytes (tag_bytes t @ rest) = Inr (t, rest)"
proof -
  have "unat t < 65536" using unsigned_less [of t] by simp
  then have "unat t div 256 < 256" "unat t mod 256 < 256" by simp_all
  then have e: "unat (word_of_nat (unat t div 256) :: byte) * 256
      + unat (word_of_nat (unat t mod 256) :: byte) = unat t" by simp
  have "(word_of_nat (unat (word_of_nat (unat t div 256) :: byte) * 256
      + unat (word_of_nat (unat t mod 256) :: byte)) :: 16 word) = t"
    by (simp only: e) simp
  then show ?thesis by (simp only: tag_of_bytes_def tag_bytes_def append_Cons append_Nil list.case)
qed

lemma encode_wire_Inr_iff:
  "encode_wire f = Inr bs \<longleftrightarrow>
     (\<exists>p. frame_get_payload f = Inr p \<and> bs = tag_bytes (command_value (frame_command f)) @ p)"
  by (auto simp: encode_wire_def encode_def rbind_eq_Inr_iff)

lemma decode_wire_tag: "decode_wire (tag_bytes t @ p) = decode_frame t p"
  by (simp add: decode_wire_def tag_of_bytes_tag_bytes)

lemma req_frame_decodes:
  assumes "command g = GW_PASSWORD_ENTER_REQ" "req_get_payload g = Inr p" "password g = Some q"
  shows "decode_frame (command_value GW_PASSWORD_ENTER_REQ) p
           = Inr (ReqFrame (g\<lparr>password := Some (takeWhile (\<lambda>c. c \<noteq> 0) q)\<rparr>))"
proof -
  have "req_from_payload (req_init None) p = Inr ((req_init None)\<lparr>password := Some (takeWhile (\<lambda>c. c \<noteq> 0) q)\<rparr>)"
    using assms(2,3) by (rule req_payload_decodes)
  moreover have "(req_init None)\<lparr>password := Some (takeWhile (\<lambda>c. c \<noteq> 0) q)\<rparr>
      = g\<lparr>password := Some (takeWhile (\<lambda>c. c \<noteq> 0) q)\<rparr>"
    using assms(1) by (cases g) (simp add: req_init_def)
  ultimately show ?thesis by (simp add: decode_frame_eq)
qed

lemma cfm_frame_decodes:
  assumes "command g = GW_PASSWORD_ENTER_CFM"
  shows "rbind (cfm_get_payload g) (decode_frame (command_value GW_PASSWORD_ENTER_CFM)) = Inr (CfmFrame g)"
proof -
  have "(cfm_init SUCCESSFUL)\<lparr>status := status g\<rparr> = g"
    using assms by (cases g) (simp add: cfm_init_def)
  then show ?thesis
    by (simp add: decode_frame_eq cfm_get_payload_eq cfm_from_payload_Cons uint_word_of_int_status)
qed

section \<open>Properties of the registry\<close>

text \<open>C9: a well-formed frame whose password has no NUL is sent as its two-byte tag and payload, and the bytes decode back to the same frame.\<close>

theorem wire_roundtrip:
  assumes "frame_wf f" and "frame_nul_free f" and "encode_wire f = Inr bs"
  shows "decode_wire bs = Inr f"
proof (cases f)
  case (ReqFrame g)
  from assms(3) ReqFrame obtain p where p: "req_get_payload g = Inr p"
    and bs: "bs = tag_bytes (command_value (command g)) @ p"
    by (auto simp: encode_wire_Inr_iff)
  from p obtain q where q: "password g = Some q" by (auto simp: req_get_payload_Inr_iff)
  have "takeWhile (\<lambda>c. c \<noteq> 0) q = q"
    using assms(2) ReqFrame q by (simp add: list_all_iff takeWhile_eq_all_conv)
  moreover have "command g = GW_PASSWORD_ENTER_REQ" using assms(1) ReqFrame by simp
  ultimately show ?thesis
    using req_frame_decodes [OF _ p q] ReqFrame bs q by (simp add: decode_wire_tag)
next
  case (CfmFrame g)
  from assms(3) CfmFrame obtain p where p: "cfm_get_payload g = Inr p"
    and bs: "bs = tag_bytes (command_value (command g)) @ p"
    by (auto simp: encode_wire_Inr_iff)
  have "command g = GW_PASSWORD_ENTER_CFM" using assms(1) CfmFrame by simp
  with cfm_frame_decodes [of g] p bs CfmFrame show ?thesis by (simp add: decode_wire_tag)
qed

text \<open>C10: decoding raises \<open>UnknownCommand\<close> exactly for the tags no frame class is registered for; a registered frame's parse error is never reported as an unknown command.\<close>

theorem decode_frame_unknown:
  "decode_frame tag payload = Inl UnknownCommand \<longleftrightarrow>
     tag \<noteq> command_value GW_PASSWORD_ENTER_REQ \<and> tag \<noteq> command_value GW_PASSWORD_ENTER_CFM"
  by (simp add: decode_frame_eq frame_from_payload_not_unknown del: frame_from_payload.simps)

text \<open>C11: every decoded frame is well formed and carries the command of the tag it was decoded from.\<close>

theorem decode_frame_wf:
  "decode_frame tag payload = Inr f \<Longrightarrow> frame_wf f \<and> command_value (frame_command f) = tag"
proof -
  assume h: "decode_frame tag payload = Inr f"
  have "frame_wf (ReqFrame (req_init None))" "frame_wf (CfmFrame (cfm_init SUCCESSFUL))"
    by (simp_all add: req_init_def cfm_init_def)
  with h show ?thesis
    by (auto simp: decode_frame_eq req_init_def cfm_init_def split: if_splits
        simp del: frame_from_payload.simps frame_wf.simps dest!: frame_from_payload_wf)
qed

text \<open>C12: a request is sent as 34 bytes and a confirmation as 3 bytes, tag included.\<close>

theorem encode_wire_length:
  "encode_wire f = Inr bs \<Longrightarrow> length bs = (case f of ReqFrame _ \<Rightarrow> 34 | CfmFrame _ \<Rightarrow> 3)"
  by (cases f) (auto simp: encode_wire_Inr_iff req_get_payload_Inr_iff cfm_get_payload_eq
      tag_bytes_def MAX_SIZE_def dest: string_to_bytes_length)

section \<open>Witnesses\<close>

theorem wire_roundtrip_witness:
  "decode_wire (tag_bytes 0x3000 @ map word_of_nat (ascii ''pw'') @ replicate 30 0)
     = Inr (ReqFrame (req_init (Some (ascii ''pw''))))"
proof -
  have h: "encode_wire (ReqFrame (req_init (Some (ascii ''pw''))))
      = Inr (tag_bytes 0x3000 @ map word_of_nat (ascii ''pw'') @ replicate 30 0)"
    by code_simp
  show ?thesis using wire_roundtrip [OF _ _ h] by (simp add: req_init_def ascii_def)
qed

theorem decode_frame_unknown_witness: "decode_frame 0x3002 [] = Inl UnknownCommand"
  using decode_frame_unknown [of "0x3002" "[]"] by simp

theorem decode_frame_wf_witness:
  "frame_wf (CfmFrame (cfm_init SUCCESSFUL))
   \<and> command_value (frame_command (CfmFrame (cfm_init SUCCESSFUL))) = 0x3001"
proof -
  have "decode_frame 0x3001 [0] = Inr (CfmFrame (cfm_init SUCCESSFUL))" by code_simp
  then show ?thesis by (rule decode_frame_wf)
qed

theorem encode_wire_length_witness: "length (tag_bytes 0x3001 @ [1 :: byte]) = 3"
proof -
  have "encode_wire (CfmFrame (cfm_init FAILED)) = Inr (tag_bytes 0x3001 @ [1])" by code_simp
  then show ?thesis using encode_wire_length by fastforce
qed

end
