(* ===== verification/Frame_Lifecycle.thy ===== *)
theory Frame_Lifecycle
  imports Frame_Registry
begin

text \<open>
  The life of a frame object (specification, section 4.2). A frame is built by its
  class's \<^verbatim>\<open>__init__\<close>, then receives method calls: \<^verbatim>\<open>get_payload\<close> and
  \<^verbatim>\<open>__str__\<close> read it, \<^verbatim>\<open>from_payload\<close> overwrites its field. A call that raises
  leaves the object as it was, since the raise comes before the assignment in every
  method of the source. \<open>frame_step\<close> is one call with its outcome, \<open>run\<close> a
  sequence of calls, \<open>constructed\<close> the frames the constructors build. A frame is populated when every field a serialisation needs is
  set: a request with a password; a confirmation always, its status defaulting to
  SUCCESSFUL.
\<close>

section \<open>Calls on a frame\<close>

datatype frame_op = GetPayload | FromPayload "byte list" | Describe

datatype op_outcome = Payload "byte list" | Updated | Text pystr | Raised py_error

fun frame_step :: "frame \<Rightarrow> frame_op \<Rightarrow> frame \<times> op_outcome" where
  "frame_step f GetPayload = (f, case frame_get_payload f of Inl e \<Rightarrow> Raised e | Inr p \<Rightarrow> Payload p)"
| "frame_step f (FromPayload bs) =
     (case frame_from_payload f bs of Inl e \<Rightarrow> (f, Raised e) | Inr g \<Rightarrow> (g, Updated))"
| "frame_step f Describe = (f, case frame_str f of Inl e \<Rightarrow> Raised e | Inr s \<Rightarrow> Text s)"

fun run :: "frame \<Rightarrow> frame_op list \<Rightarrow> frame \<times> op_outcome list" where
  "run f [] = (f, [])"
| "run f (op # ops) =
     (let (g, out) = frame_step f op; (h, outs) = run g ops in (h, out # outs))"

section \<open>Constructed and populated frames\<close>

inductive constructed :: "frame \<Rightarrow> bool" where
  request: "constructed (ReqFrame (req_init pw))"
| confirmation: "constructed (CfmFrame (cfm_init st))"

fun populated :: "frame \<Rightarrow> bool" where
  "populated (ReqFrame f) \<longleftrightarrow> password f \<noteq> None"
| "populated (CfmFrame f) \<longleftrightarrow> True"

section \<open>One call\<close>

lemma frame_step_cases:
  "fst (frame_step f op) = f \<or> (\<exists>bs. op = FromPayload bs \<and> frame_from_payload f bs = Inr (fst (frame_step f op)))"
  by (cases op) (auto split: sum.splits)

lemma frame_step_wf: "frame_wf f \<Longrightarrow> frame_wf (fst (frame_step f op))"
  using frame_step_cases [of f op] frame_from_payload_wf by metis

lemma constructed_wf: "constructed f \<Longrightarrow> frame_wf f"
  by (induction rule: constructed.induct) (simp_all add: req_init_def cfm_init_def)

lemma req_from_payload_populated:
  "req_from_payload f bs = Inr g \<Longrightarrow> password g \<noteq> None"
  by (auto simp: req_from_payload_Inr_iff)

lemma frame_from_payload_populated: "frame_from_payload f bs = Inr g \<Longrightarrow> populated g"
  by (cases f) (auto simp: rbind_eq_Inr_iff dest: req_from_payload_populated)

section \<open>Decoded passwords\<close>

lemma bytes_to_string_scalar:
  "bytes_to_string bs = Inr s \<Longrightarrow> list_all is_scalar s \<and> list_all (\<lambda>c. c \<noteq> 0) s"
proof -
  assume h: "bytes_to_string bs = Inr s"
  then have enc: "utf8_encode s = Inr (takeWhile (\<lambda>b. b \<noteq> 0) bs)"
    by (simp add: bytes_to_string_def utf8_encode_decode)
  then have "list_all is_scalar s" using utf8_encode_Inr_iff by blast
  moreover have "takeWhile (\<lambda>c. c \<noteq> 0) s = s"
  proof -
    have "utf8_encode (takeWhile (\<lambda>c. c \<noteq> 0) s) = Inr (takeWhile (\<lambda>b. b \<noteq> 0) (takeWhile (\<lambda>b. b \<noteq> 0) bs))"
      using enc by (rule utf8_encode_takeWhile)
    then have "utf8_decode (takeWhile (\<lambda>b. b \<noteq> 0) bs) = Inr (takeWhile (\<lambda>c. c \<noteq> 0) s)"
      by (simp add: utf8_decode_encode)
    with h show ?thesis by (simp add: bytes_to_string_def)
  qed
  ultimately show ?thesis by (metis list_all_iff set_takeWhileD takeWhile_eq_all_conv)
qed

lemma populated_step: "populated f \<Longrightarrow> populated (fst (frame_step f op))"
  using frame_step_cases [of f op] frame_from_payload_populated by metis

section \<open>Properties of the lifecycle\<close>

text \<open>C13: a password set by \<^verbatim>\<open>from_payload\<close> is a string of Unicode scalar values with no NUL.\<close>

theorem req_from_payload_type:
  "req_from_payload f bs = Inr g \<Longrightarrow>
     \<exists>s. password g = Some s \<and> list_all is_scalar s \<and> list_all (\<lambda>c. c \<noteq> 0) s"
  by (auto simp: req_from_payload_Inr_iff dest: bytes_to_string_scalar)

text \<open>C14: re-serialising a decoded request gives back the received bytes up to the first zero byte, zero-padded to 32 bytes, whenever those fit.\<close>

theorem req_reserialise:
  assumes "req_from_payload f bs = Inr g" and "length (takeWhile (\<lambda>b. b \<noteq> 0) bs) \<le> 32"
  shows "req_get_payload g =
           Inr (takeWhile (\<lambda>b. b \<noteq> 0) bs @ replicate (32 - length (takeWhile (\<lambda>b. b \<noteq> 0) bs)) 0)"
proof -
  from assms(1) obtain s where s: "bytes_to_string bs = Inr s" and g: "password g = Some s"
    by (auto simp: req_from_payload_Inr_iff)
  from s have "utf8_encode s = Inr (takeWhile (\<lambda>b. b \<noteq> 0) bs)"
    by (simp add: bytes_to_string_def utf8_encode_decode)
  with assms(2) g show ?thesis
    by (auto simp: req_get_payload_Inr_iff string_to_bytes_Inr_iff MAX_SIZE_def)
qed

section \<open>Witnesses\<close>

theorem req_from_payload_type_witness:
  "list_all is_scalar [0x61] \<and> list_all (\<lambda>c. c \<noteq> 0) [0x61::nat]"
proof -
  have "req_from_payload (req_init None) [0x61, 0] = Inr (req_init (Some [0x61]))" by code_simp
  from req_from_payload_type [OF this] show ?thesis by (simp add: req_init_def)
qed

theorem req_reserialise_witness:
  "req_get_payload (req_init (Some [0x61])) = Inr ([0x61] @ replicate 31 0)"
proof -
  have h: "req_from_payload (req_init None) ([0x61] @ replicate 31 0) = Inr (req_init (Some [0x61]))"
    by code_simp
  have "takeWhile (\<lambda>b. b \<noteq> 0) ([0x61] @ replicate 31 (0::byte)) = [0x61]" by code_simp
  with req_reserialise [OF h] show ?thesis by simp
qed

end
