(* ===== verification/Frame_Caller.thy ===== *)
theory Frame_Caller
  imports Frame_Lifecycle
begin

text \<open>
  The frames as the caller sees them. Besides calling methods, Python code may assign
  the public attributes \<^verbatim>\<open>password\<close> and \<^verbatim>\<open>status\<close> of a frame object directly,
  the same attributes that \<^verbatim>\<open>__init__\<close> sets (lines 17 and 49 of the source). An
  assignment of an attribute the class does not read (\<^verbatim>\<open>status\<close> on a request,
  \<^verbatim>\<open>password\<close> on a confirmation) only adds an attribute no method reads, so it leaves
  the modelled frame as it was. \<open>caller_step\<close> is a method call or an assignment,
  \<open>caller_run\<close> a sequence of them, \<open>caller_reachable\<close> the frames they produce from a
  constructed one. Proved: the command of a frame survives every such sequence; the
  state \<open>Populated\<close> of the specification survives every step except the assignment
  of \<^verbatim>\<open>None\<close> to the password, which the code allows; and a frame received from the
  wire can always be printed.
\<close>

section \<open>Assignments by the caller\<close>

definition req_set_password ::
  "frame_password_enter_request \<Rightarrow> pystr option \<Rightarrow> frame_password_enter_request" where
  "req_set_password f pw = f\<lparr>password := pw\<rparr>"

definition cfm_set_status ::
  "frame_password_enter_confirmation \<Rightarrow> PasswortEnterConfirmationStatus \<Rightarrow> frame_password_enter_confirmation" where
  "cfm_set_status f st = f\<lparr>status := st\<rparr>"

datatype caller_op =
    Call frame_op
  | SetPassword "pystr option"
  | SetStatus PasswortEnterConfirmationStatus

fun caller_step :: "frame \<Rightarrow> caller_op \<Rightarrow> frame \<times> op_outcome" where
  "caller_step f (Call op) = frame_step f op"
| "caller_step (ReqFrame f) (SetPassword pw) = (ReqFrame (req_set_password f pw), Updated)"
| "caller_step (CfmFrame f) (SetStatus st) = (CfmFrame (cfm_set_status f st), Updated)"
| "caller_step f (SetPassword pw) = (f, Updated)"
| "caller_step f (SetStatus st) = (f, Updated)"

fun caller_run :: "frame \<Rightarrow> caller_op list \<Rightarrow> frame \<times> op_outcome list" where
  "caller_run f [] = (f, [])"
| "caller_run f (op # ops) =
     (let (g, out) = caller_step f op; (h, outs) = caller_run g ops in (h, out # outs))"

inductive caller_reachable :: "frame \<Rightarrow> bool" where
  init: "constructed f \<Longrightarrow> caller_reachable f"
| step: "caller_reachable f \<Longrightarrow> caller_reachable (fst (caller_step f op))"

section \<open>Lemmas\<close>

lemma caller_run_fst_Cons: "fst (caller_run f (op # ops)) = fst (caller_run (fst (caller_step f op)) ops)"
  by (simp add: case_prod_unfold Let_def)

lemma caller_step_wf: "frame_wf f \<Longrightarrow> frame_wf (fst (caller_step f op))"
  by (cases op; cases f) (simp_all add: frame_step_wf req_set_password_def cfm_set_status_def
      split: option.splits)

lemma caller_step_populated:
  "populated f \<Longrightarrow> op \<noteq> SetPassword None \<Longrightarrow> populated (fst (caller_step f op))"
  by (cases op; cases f) (auto simp: populated_step req_set_password_def)

lemma decode_frame_populated: "decode_frame tag payload = Inr fr \<Longrightarrow> populated fr"
  by (auto simp: decode_frame_eq split: if_splits simp del: frame_from_payload.simps
      dest: frame_from_payload_populated)

lemma decode_wire_Inr: "decode_wire ws = Inr fr \<Longrightarrow> \<exists>tag payload. decode_frame tag payload = Inr fr"
  by (auto simp: decode_wire_def rbind_eq_Inr_iff split: prod.splits)

lemma populated_str: "populated fr \<Longrightarrow> \<exists>s. frame_str fr = Inr s"
  by (cases fr) (auto simp: req_str_def)

section \<open>Properties\<close>

text \<open>C17: every frame reachable from a constructor by method calls and attribute assignments still carries the command its class sets.\<close>

theorem caller_reachable_wf:"caller_reachable f \<Longrightarrow> frame_wf f"
proof (induction rule: caller_reachable.induct)
  case (init f)
  then show ?case by (rule constructed_wf)
next
  case (step f op)
  from step.IH show ?case by (rule caller_step_wf)
qed

text \<open>C18: a populated frame stays populated through any sequence of method calls and assignments that never assigns \<^verbatim>\<open>None\<close> to the password.\<close>

theorem populated_unless_cleared:
  "populated f \<Longrightarrow> \<forall>op \<in> set ops. op \<noteq> SetPassword None \<Longrightarrow> populated (fst (caller_run f ops))"
proof (induction ops arbitrary: f)
  case Nil
  then show ?case by simp
next
  case (Cons op ops)
  from Cons.prems have p: "populated (fst (caller_step f op))" by (simp add: caller_step_populated)
  from Cons.prems have "\<forall>op \<in> set ops. op \<noteq> SetPassword None" by simp
  with p show ?case by (simp only: caller_run_fst_Cons Cons.IH)
qed

text \<open>C19: every frame decoded from the wire can be printed: \<^verbatim>\<open>__str__\<close> of a received frame never raises.\<close>

theorem decoded_frame_describes:"decode_wire ws = Inr fr \<Longrightarrow> \<exists>s. frame_str fr = Inr s"
  by (blast dest: decode_wire_Inr decode_frame_populated populated_str)

section \<open>Witnesses\<close>

theorem caller_reachable_wf_witness:
  "frame_wf (fst (caller_step (CfmFrame (cfm_init SUCCESSFUL)) (SetStatus FAILED)))"
  by (rule caller_reachable_wf [OF caller_reachable.step [OF caller_reachable.init [OF constructed.confirmation]]])

theorem populated_unless_cleared_witness:
  "populated (fst (caller_run (ReqFrame (req_init (Some [0x61])))
     [SetPassword (Some []), Call GetPayload, SetStatus FAILED]))"
  by (rule populated_unless_cleared) (simp_all add: req_init_def)

theorem decoded_frame_describes_witness:
  "\<exists>s. frame_str (CfmFrame (cfm_init FAILED)) = Inr s"
proof -
  have "decode_wire [0x30, 0x01, 0x01] = Inr (CfmFrame (cfm_init FAILED))" by code_simp
  then show ?thesis by (rule decoded_frame_describes)
qed

end
