(* ===== verification/Spec_Lifecycle.thy ===== *)
theory Spec_Lifecycle
  imports Frame_Lifecycle
begin

text \<open>
  The state machine of specification section 4.2, written from its words, and the
  simulation of the frame objects by it. A frame is \<open>Unpopulated\<close> or
  \<open>Populated\<close>; \<open>getPayload\<close> succeeds or fails with an error other than
  \<open>MissingField\<close> only when populated, fails with \<open>MissingField\<close> only when
  unpopulated; a successful \<open>fromPayload\<close> populates; a failed one and
  \<open>describe\<close> change nothing; nothing leads back to \<open>Unpopulated\<close>. Each method call
  of the model is mapped to the event it shows (\<open>event_of\<close>: the method and whether
  and how it raised) and each frame to its abstract state (\<open>lc_of\<close>). Proved: every
  sequence of method calls on any frame is a trace of the specification's machine.
\<close>

section \<open>The specification's state machine\<close>

datatype lc_state = Unpopulated | Populated

datatype lc_event =
    Serialised | MissingField | SerialiseFailed | Parsed | ParseFailed | Described

inductive spec_lc :: "lc_state \<Rightarrow> lc_event \<Rightarrow> lc_state \<Rightarrow> bool" where
  serialised: "spec_lc Populated Serialised Populated"
| missing: "spec_lc Unpopulated MissingField Unpopulated"
| serialise_failed: "spec_lc Populated SerialiseFailed Populated"
| parsed: "spec_lc s Parsed Populated"
| parse_failed: "spec_lc s ParseFailed s"
| described: "spec_lc s Described s"

inductive spec_lc_trace :: "lc_state \<Rightarrow> lc_event list \<Rightarrow> lc_state \<Rightarrow> bool" where
  nil: "spec_lc_trace s [] s"
| cons: "spec_lc s e s' \<Longrightarrow> spec_lc_trace s' es s'' \<Longrightarrow> spec_lc_trace s (e # es) s''"

inductive_simps spec_lc_Unpopulated: "spec_lc Unpopulated e s"
inductive_simps spec_lc_Populated: "spec_lc Populated e s"

section \<open>Abstraction of the frame objects\<close>

definition lc_of :: "frame \<Rightarrow> lc_state" where
  "lc_of f = (if populated f then Populated else Unpopulated)"

fun event_of :: "frame_op \<Rightarrow> op_outcome \<Rightarrow> lc_event" where
  "event_of GetPayload (Raised e) =
     (if e = PyVLXException ''password is none'' then MissingField else SerialiseFailed)"
| "event_of GetPayload _ = Serialised"
| "event_of (FromPayload bs) (Raised e) = ParseFailed"
| "event_of (FromPayload bs) _ = Parsed"
| "event_of Describe _ = Described"

section \<open>Lemmas\<close>

lemma frame_get_payload_missing:
  "frame_get_payload f = Inl (PyVLXException ''password is none'') \<longleftrightarrow> \<not> populated f"
proof (cases f)
  case (ReqFrame g)
  have "string_to_bytes p MAX_SIZE \<noteq> Inl (PyVLXException ''password is none'')" for p
    using utf8_encode_Inl [of p] by (auto simp: string_to_bytes_Inl_iff)
  with ReqFrame show ?thesis by (simp add: req_get_payload_def split: option.splits)
next
  case (CfmFrame g)
  then show ?thesis by (simp add: cfm_get_payload_eq)
qed

lemma run_Cons_eq:
  "run f (op # ops) =
     (fst (run (fst (frame_step f op)) ops), snd (frame_step f op) # snd (run (fst (frame_step f op)) ops))"
  by (simp add: case_prod_unfold Let_def)

lemma frame_step_simulated:
  "spec_lc (lc_of f) (event_of op (snd (frame_step f op))) (lc_of (fst (frame_step f op)))"
proof (cases op)
  case GetPayload
  show ?thesis
  proof (cases "frame_get_payload f")
    case (Inl e)
    then have "e \<noteq> PyVLXException ''password is none'' \<Longrightarrow> populated f"
      using frame_get_payload_missing [of f] by auto
    with Inl GetPayload show ?thesis
      by (auto simp: lc_of_def spec_lc_Unpopulated spec_lc_Populated frame_get_payload_missing)
  next
    case (Inr p)
    then have "populated f" using frame_get_payload_missing [of f] by auto
    with Inr GetPayload show ?thesis by (simp add: lc_of_def spec_lc_Populated)
  qed
next
  case (FromPayload bs)
  then show ?thesis
    by (cases "frame_from_payload f bs")
      (auto simp: lc_of_def spec_lc_Unpopulated spec_lc_Populated frame_from_payload_populated
        simp del: frame_from_payload.simps)
next
  case Describe
  then show ?thesis
    by (cases "frame_str f") (simp_all add: spec_lc.described)
qed

section \<open>Refinement\<close>

text \<open>C20: every sequence of method calls on any frame is a trace of the specification's state machine: each call shows the event the specification allows in the frame's abstract state and leads to the state it prescribes.\<close>

theorem run_refines_spec_lc:
  "spec_lc_trace (lc_of f) (map2 event_of ops (snd (run f ops))) (lc_of (fst (run f ops)))"
proof (induction ops arbitrary: f)
  case Nil
  then show ?case by (simp add: spec_lc_trace.nil)
next
  case (Cons op ops)
  show ?case
    unfolding run_Cons_eq
    using frame_step_simulated [of f op] Cons.IH [of "fst (frame_step f op)"]
    by (simp add: spec_lc_trace.cons)
qed

end
