(* ===== verification/Spec2Isabelle.thy ===== *)
theory Spec2Isabelle
  imports Frame_Caller Spec_Lifecycle
begin

text \<open>
  \<^bold>\<open>A verified model of the pyvlx password-enter frames.\<close>

  \<^emph>\<open>The program.\<close> \<^verbatim>\<open>src/new_api/pyvlx/frame_password_enter.py\<close> defines the two
  frames a client exchanges with a KLF-200 gateway to log in:
  \<^verbatim>\<open>FramePasswordEnterRequest\<close> carries the password in a 32-byte field, and
  \<^verbatim>\<open>FramePasswordEnterConfirmation\<close> answers with a one-byte status of the enum
  \<^verbatim>\<open>PasswortEnterConfirmationStatus\<close> (SUCCESSFUL = 0, FAILED = 1). Both extend
  \<^verbatim>\<open>FrameBase\<close>, which binds a frame to its \<^verbatim>\<open>Command\<close>; the request calls the
  helpers \<^verbatim>\<open>string_to_bytes\<close> and \<^verbatim>\<open>bytes_to_string\<close>, which rely on Python's UTF-8
  codec. FrameBase, the command catalog and the string helpers are not among the
  source files: they are modelled from the specification (sections 3, 4.1, 4.2, 6).

  \<^emph>\<open>The theories\<close>, in the order they import each other.
  \<^item> \<open>Prelude\<close>: bytes as \<open>8 word\<close> lists, Python strings as lists of code points, the
    exceptions as the datatype \<open>py_error\<close>, results as \<open>py_error + 'a\<close> with
    \<open>rbind\<close> for a statement that may raise, \<open>py_bytes\<close> for \<^verbatim>\<open>bytes([...])\<close>.
  \<^item> \<open>Utf8\<close>: CPython's strict UTF-8 codec (\<open>utf8_encode\<close>, \<open>utf8_decode\<close>); the
    decoder is a terminating \<^theory_text>\<open>function\<close> over the byte list. Proved: the codec is a
    bijection between strings of Unicode scalar values and well-formed byte strings
    (\<open>utf8_codec_bijection\<close>), encoding fails exactly on surrogates, a zero byte
    appears exactly for the code point 0, and lengths grow by a factor of one to four.
  \<^item> \<open>String_Helper\<close>: \<open>string_to_bytes\<close> (encode, pad with zeros, \<open>PayloadTooLong\<close>
    when the encoding does not fit) and \<open>bytes_to_string\<close> (decode up to the first
    zero byte). Proved: the field has the fixed size, and decoding a field gives the
    string up to its first NUL.
  \<^item> \<open>Frame_Base\<close>: the command catalog with its 16-bit codes and the record
    \<open>frame_base\<close>; code and command convert both ways.
  \<^item> \<open>Frame_Password_Enter\<close>: the source file. Records
    \<open>frame_password_enter_request\<close> and \<open>frame_password_enter_confirmation\<close>
    extend \<open>frame_base\<close>; \<open>req_init\<close>, \<open>req_get_payload\<close>, \<open>req_from_payload\<close>,
    \<open>req_str\<close>, \<open>cfm_init\<close>, \<open>cfm_get_payload\<close>, \<open>cfm_from_payload\<close>,
    \<open>cfm_str\<close> are the methods \<^verbatim>\<open>__init__\<close>, \<^verbatim>\<open>get_payload\<close>,
    \<^verbatim>\<open>from_payload\<close> and \<^verbatim>\<open>__str__\<close> of the two classes, with every raise as an
    \<open>Inl\<close> value. Proved (C1 to C8): the exact payload of a request and the exact set
    of its errors (the guard counts code points, the empty password is accepted), the
    round trip up to the first NUL, the 32-byte and one-byte payload sizes, the status
    round trip and the exact errors of parsing a status, and that the printed request
    depends on the first two characters of the password only.
  \<^item> \<open>Frame_Registry\<close>: the registry of specification section 4.5 (modelled from
    the specification): the frames as the datatype \<open>frame\<close> with the contract
    dispatched per variant (\<open>frame_get_payload\<close>, \<open>frame_from_payload\<close>,
    \<open>frame_str\<close>), registration refusing duplicate commands (\<open>build_registry\<close>),
    \<open>decode_frame\<close> by tag on a fresh instance, and the wire form with a two-byte tag
    (\<open>encode_wire\<close>, \<open>decode_wire\<close>). Proved (C9 to C12): the wire round trip,
    exactly which tags are unknown, that decoded frames are well formed, and the wire
    lengths (34 and 3 bytes).
  \<^item> \<open>Frame_Lifecycle\<close>: the object view of section 4.2: a call on a frame
    (\<open>frame_step\<close>; a raising call leaves the object unchanged), sequences of calls
    (\<open>run\<close>), the frames the constructors build (\<open>constructed\<close>) and \<open>populated\<close>.
    Proved (C13, C14): decoded passwords are NUL-free strings of scalar values, and
    re-serialising a decoded request reproduces the received bytes.
  \<^item> \<open>Frame_Caller\<close>: the caller's side of the object: besides method calls, Python
    code may assign the attributes \<^verbatim>\<open>password\<close> and \<^verbatim>\<open>status\<close> that the
    constructors set (\<open>req_set_password\<close>, \<open>cfm_set_status\<close>, lines 17 and 49);
    \<open>caller_step\<close>, \<open>caller_run\<close> and the inductive \<open>caller_reachable\<close> extend the
    lifecycle with them. Proved (C17 to C19): the command survives every call and
    assignment (rule induction); \<open>Populated\<close> survives everything except assigning
    \<^verbatim>\<open>None\<close> to the password, which the code allows; every frame decoded from the wire
    prints without raising.
  \<^item> \<open>Spec_Lifecycle\<close>: the state machine of section 4.2 written from its words
    (inductive \<open>spec_lc\<close> over \<open>Unpopulated\<close> and \<open>Populated\<close>, its traces
    \<open>spec_lc_trace\<close>), the abstraction \<open>lc_of\<close> of a frame and \<open>event_of\<close> of a call
    and its outcome. Proved (C20): every sequence of method calls is a trace of the
    machine (a simulation, step by step). Caller assignments are outside it: assigning
    \<^verbatim>\<open>None\<close> to the password of a populated request is a transition back to
    \<open>Unpopulated\<close>, which the machine does not have.
  \<^item> This theory: the specification's own view of the codec: abstract frames
    (\<open>abs_frame\<close>, \<open>abs_of_frame\<close>), its five error kinds (\<open>spec_error\<close>, with
    \<open>error_kind\<close> classifying the exceptions the code raises), and
    \<open>spec_get_payload\<close> and \<open>spec_decode\<close> written from its words. Proved (C15,
    C16): serialisation and decoding refine it (\<open>map_sum error_kind abs_of_frame\<close>
    of the code equals the specification); since the specification has no guard on
    code points, C15 also shows that the guard of line 23 changes no payload and no
    error kind for passwords of scalar values. Proved (C21): the boundary of the field
    for ASCII passwords: 32 characters serialise, 33 raise
    \<^verbatim>\<open>password is too long\<close>.

  \<^emph>\<open>Bounds and termination.\<close> No fuel is needed: every function is total, the
  UTF-8 decoder by the measure \<open>length\<close> of the remaining bytes, the others by
  structural recursion; the source itself has no loop. The 32-byte field, the
  one-byte status and the 34- and 3-byte wire frames are proved for all inputs.

  \<^emph>\<open>Not modelled.\<close> The transport (sockets, framing with length and checksum), the
  rest of the command catalog and of the frame classes, and the session logic above
  the codec: the repository holds none of them under \<open>src/\<close>. Lines 1 to 8 of the
  source are imports and the module docstring. Attribute values of a type the
  source does not expect (a \<^verbatim>\<open>bytes\<close> password, an \<^verbatim>\<open>int\<close> status assigned by the
  caller) are outside the model: attributes are typed as the constructors set them.
  The catalog holds the five password commands; the rest of pyvlx's \<^verbatim>\<open>Command\<close>
  enumeration is not in the repository, and every unregistered tag behaves alike
  (C10). Several frame objects used together (specification section 5) are not
  modelled separately: frames share no state, so each object's behaviour is that of
  its own calls. Every line of the source file that holds code is translated by a
  mapped definition; what is left of the repository to model lies outside
  \<open>src/\<close> and the specification.
\<close>

section \<open>The codec as the specification describes it\<close>

text \<open>
  The specification's view of the codec (sections 3, 4.2 to 4.5, 7): frames as their
  field values only, errors as the five kinds it names, and each operation defined
  from its words, not from the code. \<open>Err_Unspecified\<close> stands for a failure the
  specification does not name (an unencodable password, printing an unset request).
\<close>

datatype spec_error =
    Err_MissingField | Err_PayloadTooLong | Err_MalformedPayload | Err_UnknownCommand
  | Err_DuplicateCommand | Err_Unspecified

datatype abs_frame =
    APasswordEnterRequest "pystr option"
  | APasswordEnterConfirmation PasswortEnterConfirmationStatus

fun abs_of_frame :: "frame \<Rightarrow> abs_frame" where
  "abs_of_frame (ReqFrame f) = APasswordEnterRequest (password f)"
| "abs_of_frame (CfmFrame f) = APasswordEnterConfirmation (status f)"

fun error_kind :: "py_error \<Rightarrow> spec_error" where
  "error_kind (PyVLXException msg) =
     (if msg = ''password is none'' then Err_MissingField else Err_PayloadTooLong)"
| "error_kind IndexError = Err_MalformedPayload"
| "error_kind ValueError = Err_MalformedPayload"
| "error_kind TypeError = Err_Unspecified"
| "error_kind UnicodeEncodeError = Err_Unspecified"
| "error_kind UnicodeDecodeError = Err_MalformedPayload"
| "error_kind PayloadTooLong = Err_PayloadTooLong"
| "error_kind UnknownCommand = Err_UnknownCommand"
| "error_kind DuplicateCommand = Err_DuplicateCommand"

text \<open>Section 3: SUCCESSFUL is 0 and FAILED is 1; any other byte is invalid input.\<close>

primrec spec_status_code :: "PasswortEnterConfirmationStatus \<Rightarrow> byte" where
  "spec_status_code SUCCESSFUL = 0"
| "spec_status_code FAILED = 1"

definition spec_status_of_byte :: "byte \<Rightarrow> PasswortEnterConfirmationStatus option" where
  "spec_status_of_byte b = (if b = 0 then Some SUCCESSFUL else if b = 1 then Some FAILED else None)"

text \<open>Sections 4.1 and 4.3: the password field is its UTF-8 encoding padded to 32 bytes.\<close>

definition spec_password_field :: "pystr \<Rightarrow> spec_error + byte list" where
  "spec_password_field p =
     (case utf8_encode p of
        Inl _ \<Rightarrow> Inl Err_Unspecified
      | Inr enc \<Rightarrow> if 32 < length enc then Inl Err_PayloadTooLong else Inr (enc @ replicate (32 - length enc) 0))"

fun spec_get_payload :: "abs_frame \<Rightarrow> spec_error + byte list" where
  "spec_get_payload (APasswordEnterRequest None) = Inl Err_MissingField"
| "spec_get_payload (APasswordEnterRequest (Some p)) = spec_password_field p"
| "spec_get_payload (APasswordEnterConfirmation st) = Inr [spec_status_code st]"

text \<open>Sections 4.1, 4.3 to 4.5: decoding by command, the password up to the first zero byte.\<close>

definition spec_decode :: "16 word \<Rightarrow> byte list \<Rightarrow> spec_error + abs_frame" where
  "spec_decode tag bs =
     (if tag = command_value GW_PASSWORD_ENTER_REQ then
        (case utf8_decode (takeWhile (\<lambda>b. b \<noteq> 0) bs) of
           Inl _ \<Rightarrow> Inl Err_MalformedPayload
         | Inr s \<Rightarrow> Inr (APasswordEnterRequest (Some s)))
      else if tag = command_value GW_PASSWORD_ENTER_CFM then
        (case bs of
           [] \<Rightarrow> Inl Err_MalformedPayload
         | b # _ \<Rightarrow>
             (case spec_status_of_byte b of
                None \<Rightarrow> Inl Err_MalformedPayload
              | Some st \<Rightarrow> Inr (APasswordEnterConfirmation st)))
      else Inl Err_UnknownCommand)"

fun abs_text_ok :: "abs_frame \<Rightarrow> bool" where
  "abs_text_ok (APasswordEnterRequest (Some p)) = list_all is_scalar p"
| "abs_text_ok _ = True"

section \<open>Lemmas\<close>

lemma status_of_value_uint:
  "status_of_value (uint b) = (if b = 0 then Inr SUCCESSFUL else if b = 1 then Inr FAILED else Inl ValueError)"
proof -
  have "uint b = 0 \<longleftrightarrow> b = 0" "uint b = 1 \<longleftrightarrow> b = 1"
    by (simp_all add: word_uint_eq_iff)
  then show ?thesis by (simp add: status_of_value_def)
qed

lemma spec_status_code_eq: "word_of_int (status_value st) = spec_status_code st"
  by (cases st) simp_all

lemma req_get_payload_kind:
  assumes "list_all is_scalar p"
  shows "map_sum error_kind id (string_to_bytes p MAX_SIZE) = spec_password_field p"
proof -
  obtain enc where "utf8_encode p = Inr enc" using assms utf8_encode_Inr_iff by blast
  then show ?thesis by (simp add: string_to_bytes_def spec_password_field_def MAX_SIZE_def)
qed

lemma req_payload_refines:
  assumes "abs_text_ok (APasswordEnterRequest (password g))"
  shows "map_sum error_kind id (req_get_payload g) = spec_get_payload (APasswordEnterRequest (password g))"
proof (cases "password g")
  case None
  then show ?thesis by (simp add: req_get_payload_def)
next
  case (Some p)
  with assms have sc: "list_all is_scalar p" by simp
  then obtain enc where enc: "utf8_encode p = Inr enc" using utf8_encode_Inr_iff by blast
  show ?thesis
  proof (cases "MAX_SIZE < length p")
    case True
    with enc have "32 < length enc" using utf8_encode_length [OF enc] by (simp add: MAX_SIZE_def)
    with True Some enc show ?thesis by (simp add: req_get_payload_def spec_password_field_def)
  next
    case False
    with Some req_get_payload_kind [OF sc] show ?thesis by (simp add: req_get_payload_def)
  qed
qed

section \<open>Refinement\<close>

text \<open>C15: serialisation refines the specification: for every frame whose password, if any, consists of Unicode scalar values, \<^verbatim>\<open>get_payload\<close> returns the payload the specification prescribes, or fails with the error kind it prescribes.\<close>

theorem get_payload_refines_spec:
  "abs_text_ok (abs_of_frame f) \<Longrightarrow>
     map_sum error_kind id (frame_get_payload f) = spec_get_payload (abs_of_frame f)"
proof (cases f)
  case (ReqFrame g)
  then show "abs_text_ok (abs_of_frame f) \<Longrightarrow> ?thesis" using req_payload_refines [of g] by simp
next
  case (CfmFrame g)
  then show ?thesis by (simp add: cfm_get_payload_eq spec_status_code_eq)
qed

text \<open>C16: decoding refines the specification on every input: the registry and the two \<^verbatim>\<open>from_payload\<close> methods produce the frame the specification prescribes for a tag and a payload, or fail with the error kind it prescribes (\<open>UnknownCommand\<close>, \<open>MalformedPayload\<close>).\<close>

theorem decode_refines_spec:
  "map_sum error_kind abs_of_frame (decode_frame tag bs) = spec_decode tag bs"
proof -
  have req: "map_sum error_kind abs_of_frame (frame_from_payload (ReqFrame (req_init None)) bs)
      = (case utf8_decode (takeWhile (\<lambda>b. b \<noteq> 0) bs) of
           Inl _ \<Rightarrow> Inl Err_MalformedPayload | Inr s \<Rightarrow> Inr (APasswordEnterRequest (Some s)))"
    by (cases "utf8_decode (takeWhile (\<lambda>b. b \<noteq> 0) bs)")
      (auto simp: req_from_payload_def bytes_to_string_def dest: utf8_decode_Inl)
  have cfm: "map_sum error_kind abs_of_frame (frame_from_payload (CfmFrame (cfm_init SUCCESSFUL)) bs)
      = (case bs of [] \<Rightarrow> Inl Err_MalformedPayload
         | b # _ \<Rightarrow> (case spec_status_of_byte b of None \<Rightarrow> Inl Err_MalformedPayload
                     | Some st \<Rightarrow> Inr (APasswordEnterConfirmation st)))"
    by (cases bs) (simp_all add: cfm_from_payload_def status_of_value_uint spec_status_of_byte_def)
  show ?thesis by (simp add: decode_frame_eq spec_decode_def req cfm del: frame_from_payload.simps)
qed

section \<open>Boundaries of the password field\<close>

text \<open>C21: for ASCII passwords, where code points and bytes coincide, the request serialises exactly when the password has at most 32 characters, to its bytes and the zero padding; a 33rd character makes it raise \<^verbatim>\<open>password is too long\<close>.\<close>

theorem req_ascii_boundary:
  "list_all (\<lambda>c. c < 0x80) p \<Longrightarrow>
     req_get_payload (req_init (Some p)) =
       (if length p \<le> 32 then Inr (map word_of_nat p @ replicate (32 - length p) 0)
        else Inl (PyVLXException ''password is too long''))"
  by (simp add: utf8_encode_ascii req_get_payload_def req_init_def string_to_bytes_def MAX_SIZE_def)

section \<open>Witnesses\<close>

theorem get_payload_refines_spec_witness:
  "map_sum error_kind id (frame_get_payload (ReqFrame (req_init (Some (replicate 33 0x61)))))
     = Inl Err_PayloadTooLong"
proof -
  have "abs_text_ok (abs_of_frame (ReqFrame (req_init (Some (replicate 33 0x61)))))"
    by (simp add: req_init_def is_scalar_def list_all_iff)
  from get_payload_refines_spec [OF this] show ?thesis by code_simp
qed

theorem req_ascii_boundary_witness:
  "req_get_payload (req_init (Some (replicate 33 0x61))) = Inl (PyVLXException ''password is too long'')"
proof -
  have "list_all (\<lambda>c. c < 0x80) (replicate 33 (0x61::nat))" by (simp add: list_all_iff)
  from req_ascii_boundary [OF this] show ?thesis by simp
qed

end
